theory Spec2Isabelle
  imports Complex_Main "HOL-Library.AList" "HOL-Library.Log_Nat"
begin

section \<open>Floating-point values\<close>

text \<open>
  The numeric cells of a pandas column are IEEE doubles. They are modelled as exact reals
  together with the three special values the code depends on: dividing by zero gives an
  infinity or NaN instead of raising, NaN propagates through arithmetic, every ordered
  comparison with NaN is false, and \<open>dropna\<close>, \<open>fillna\<close> and \<open>mean\<close> single NaN out.
  The operations of this section compute on the exact reals: rounding and overflow are
  left out of them, and the sign of zero is not modelled. The headline trajectory, which
  adds the same increment 2554 times, is computed with the rounded operations of the next
  section.

  The columns of a loaded price file hold finite numbers: an input column is a
  \<open>real list\<close>. Derived columns are \<open>fl list\<close>.
\<close>

datatype fl = Fin real | PInf | NInf | NaN

fun fneg :: "fl \<Rightarrow> fl" where
  "fneg (Fin a) = Fin (- a)"
| "fneg PInf = NInf"
| "fneg NInf = PInf"
| "fneg NaN = NaN"

fun fadd :: "fl \<Rightarrow> fl \<Rightarrow> fl" where
  "fadd (Fin a) (Fin b) = Fin (a + b)"
| "fadd NaN _ = NaN"
| "fadd _ NaN = NaN"
| "fadd PInf NInf = NaN"
| "fadd NInf PInf = NaN"
| "fadd PInf _ = PInf"
| "fadd _ PInf = PInf"
| "fadd NInf _ = NInf"
| "fadd _ NInf = NInf"

definition fsub :: "fl \<Rightarrow> fl \<Rightarrow> fl" where
  "fsub a b = fadd a (fneg b)"

fun fmul :: "fl \<Rightarrow> fl \<Rightarrow> fl" where
  "fmul (Fin a) (Fin b) = Fin (a * b)"
| "fmul NaN _ = NaN"
| "fmul _ NaN = NaN"
| "fmul PInf (Fin b) = (if b = 0 then NaN else if 0 < b then PInf else NInf)"
| "fmul NInf (Fin b) = (if b = 0 then NaN else if 0 < b then NInf else PInf)"
| "fmul (Fin a) PInf = (if a = 0 then NaN else if 0 < a then PInf else NInf)"
| "fmul (Fin a) NInf = (if a = 0 then NaN else if 0 < a then NInf else PInf)"
| "fmul PInf PInf = PInf"
| "fmul NInf NInf = PInf"
| "fmul PInf NInf = NInf"
| "fmul NInf PInf = NInf"

fun fdiv :: "fl \<Rightarrow> fl \<Rightarrow> fl" where
  "fdiv (Fin a) (Fin b) =
     (if b = 0 then (if a = 0 then NaN else if 0 < a then PInf else NInf)
      else Fin (a / b))"
| "fdiv NaN _ = NaN"
| "fdiv _ NaN = NaN"
| "fdiv (Fin a) _ = Fin 0"
| "fdiv PInf (Fin b) = (if 0 \<le> b then PInf else NInf)"
| "fdiv NInf (Fin b) = (if 0 \<le> b then NInf else PInf)"
| "fdiv _ _ = NaN"

fun fgt :: "fl \<Rightarrow> fl \<Rightarrow> bool" where
  "fgt NaN _ = False"
| "fgt _ NaN = False"
| "fgt (Fin a) (Fin b) = (b < a)"
| "fgt PInf PInf = False"
| "fgt PInf _ = True"
| "fgt _ PInf = False"
| "fgt NInf _ = False"
| "fgt _ NInf = True"

definition flt :: "fl \<Rightarrow> fl \<Rightarrow> bool" where
  "flt a b = fgt b a"

fun fge :: "fl \<Rightarrow> fl \<Rightarrow> bool" where
  "fge NaN _ = False"
| "fge _ NaN = False"
| "fge a b = (\<not> fgt b a)"

definition isna :: "fl \<Rightarrow> bool" where
  "isna x = (x = NaN)"

definition fillna :: "fl \<Rightarrow> fl \<Rightarrow> fl" where
  "fillna v x = (if isna x then v else x)"

definition fsum :: "fl list \<Rightarrow> fl" where
  "fsum xs = foldl fadd (Fin 0) xs"

text \<open>\<open>Series.mean()\<close>: NaN cells are skipped; the mean of nothing is NaN.\<close>

definition fmean :: "fl list \<Rightarrow> fl" where
  "fmean xs =
     (let ys = filter (\<lambda>x. \<not> isna x) xs
      in if ys = [] then NaN else fdiv (fsum ys) (Fin (real (length ys))))"

section \<open>Rounding to double precision\<close>

text \<open>
  An IEEE double is zero or \<open>m * 2^e\<close> with an integer \<open>m\<close> of at most 53 bits and
  \<open>-1074 \<le> e\<close>. The result of an arithmetic operation is the exact result rounded to the
  nearest double, a tie going to the even \<open>m\<close>; a result that rounds to \<open>2^1024\<close> or
  beyond is an infinity.
\<close>

definition pow2 :: "int \<Rightarrow> real" where
  "pow2 e = (if 0 \<le> e then 2 ^ nat e else 1 / 2 ^ nat (- e))"

text \<open>The binary exponent of a positive number: \<open>2^ilog2 x \<le> x < 2^(ilog2 x + 1)\<close>.\<close>

definition ilog2 :: "real \<Rightarrow> int" where
  "ilog2 x = (if 1 \<le> x then bitlen \<lfloor>x\<rfloor> - 1 else - bitlen (\<lceil>1 / x\<rceil> - 1))"

definition round_half_even :: "real \<Rightarrow> int" where
  "round_half_even x =
     (let f = \<lfloor>x\<rfloor>; d = x - of_int f
      in if d < 1 / 2 then f else if 1 / 2 < d then f + 1 else if even f then f else f + 1)"

definition to_double :: "real \<Rightarrow> fl" where
  "to_double x =
     (if x = 0 then Fin 0
      else let e = max (ilog2 \<bar>x\<bar> - 52) (- 1074);
               r = of_int (round_half_even (x / pow2 e)) * pow2 e
      in if 2 ^ 1024 \<le> r then PInf else if r \<le> - (2 ^ 1024) then NInf else Fin r)"

definition rounded :: "fl \<Rightarrow> fl" where
  "rounded v = (case v of Fin r \<Rightarrow> to_double r | _ \<Rightarrow> v)"

definition float_add :: "fl \<Rightarrow> fl \<Rightarrow> fl" where
  "float_add a b = rounded (fadd a b)"

definition float_sub :: "fl \<Rightarrow> fl \<Rightarrow> fl" where
  "float_sub a b = rounded (fsub a b)"

definition float_mul :: "fl \<Rightarrow> fl \<Rightarrow> fl" where
  "float_mul a b = rounded (fmul a b)"

section \<open>Series operations\<close>

text \<open>\<open>Series.diff()\<close>: the first cell has no predecessor and is NaN.\<close>

definition diff :: "real list \<Rightarrow> fl list" where
  "diff xs = map (\<lambda>i. if i = 0 then NaN else Fin (xs ! i - xs ! (i - 1))) [0..<length xs]"

text \<open>\<open>Series.shift(k)\<close>: the first \<open>k\<close> cells are NaN.\<close>

definition shift :: "nat \<Rightarrow> real list \<Rightarrow> fl list" where
  "shift k xs = map (\<lambda>i. if i < k then NaN else Fin (xs ! (i - k))) [0..<length xs]"

text \<open>
  \<open>Series.rolling(window=w)\<close>: the trailing window of bar \<open>i\<close> holds the bars
  \<open>i + 1 - w .. i\<close>; while fewer than \<open>w\<close> bars exist the result is NaN.
\<close>

definition window :: "nat \<Rightarrow> nat \<Rightarrow> 'a list \<Rightarrow> 'a list" where
  "window w i xs = take w (drop (i + 1 - w) xs)"

definition rolling_mean :: "nat \<Rightarrow> fl list \<Rightarrow> fl list" where
  "rolling_mean w xs =
     map (\<lambda>i. if i + 1 < w then NaN else fdiv (fsum (window w i xs)) (Fin (real w)))
       [0..<length xs]"

text \<open>\<open>rolling(window=w).std()\<close>: the sample standard deviation (\<open>ddof = 1\<close>).\<close>

definition sample_std :: "real list \<Rightarrow> real" where
  "sample_std ys =
     (let m = sum_list ys / real (length ys)
      in sqrt (sum_list (map (\<lambda>y. (y - m)\<^sup>2) ys) / (real (length ys) - 1)))"

definition rolling_std :: "nat \<Rightarrow> real list \<Rightarrow> fl list" where
  "rolling_std w xs =
     map (\<lambda>i. if i + 1 < w then NaN else Fin (sample_std (window w i xs))) [0..<length xs]"

section \<open>The indicator engine: relative strength index\<close>

text \<open>\<open>np.where(delta > 0, delta, 0)\<close> and \<open>np.where(delta < 0, -delta, 0)\<close>.\<close>

definition gain :: "real list \<Rightarrow> fl list" where
  "gain close = map (\<lambda>d. if fgt d (Fin 0) then d else Fin 0) (diff close)"

definition loss :: "real list \<Rightarrow> fl list" where
  "loss close = map (\<lambda>d. if flt d (Fin 0) then fneg d else Fin 0) (diff close)"

definition avg_gain :: "nat \<Rightarrow> real list \<Rightarrow> fl list" where
  "avg_gain n close = rolling_mean n (gain close)"

definition avg_loss :: "nat \<Rightarrow> real list \<Rightarrow> fl list" where
  "avg_loss n close = rolling_mean n (loss close)"

definition rsi_of :: "fl \<Rightarrow> fl \<Rightarrow> fl" where
  "rsi_of g l =
     (let rs = fdiv g l
      in fsub (Fin 100) (fdiv (Fin 100) (fadd (Fin 1) rs)))"

definition relative_strength_idx :: "real list \<Rightarrow> nat \<Rightarrow> fl list" where
  "relative_strength_idx close n =
     map (fillna (Fin 50)) (map2 rsi_of (avg_gain n close) (avg_loss n close))"

section \<open>The halving calendar\<close>

text \<open>
  A \<open>datetime(y, m, d)\<close> literal is a civil date at midnight. Timestamps of the price
  series arrive as milliseconds since 1970-01-01 and keep that form: a timestamp is an
  \<open>int\<close>. A civil date is placed on the same axis by its proleptic Gregorian ordinal,
  computed as CPython's \<open>datetime\<close> does (\<open>_days_before_year\<close>,
  \<open>_days_before_month\<close>, \<open>_ymd2ord\<close>); 1970-01-01 has ordinal 719163.
\<close>

datatype datetime = Datetime (year: int) (month: int) (day: int)

definition ms_per_day :: int where
  "ms_per_day = 86400000"

definition is_leap :: "int \<Rightarrow> bool" where
  "is_leap y = (y mod 4 = 0 \<and> (y mod 100 \<noteq> 0 \<or> y mod 400 = 0))"

definition days_before_year :: "int \<Rightarrow> int" where
  "days_before_year y = (let y1 = y - 1 in y1 * 365 + y1 div 4 - y1 div 100 + y1 div 400)"

definition days_before_month :: "int \<Rightarrow> int \<Rightarrow> int" where
  "days_before_month y m =
     [0, 31, 59, 90, 120, 151, 181, 212, 243, 273, 304, 334] ! nat (m - 1)
       + (if 2 < m \<and> is_leap y then 1 else 0)"

definition toordinal :: "datetime \<Rightarrow> int" where
  "toordinal d = days_before_year (year d) + days_before_month (year d) (month d) + day d"

definition epoch_ms :: "datetime \<Rightarrow> int" where
  "epoch_ms d = (toordinal d - 719163) * ms_per_day"

text \<open>\<open>(a - b).days\<close>: the whole days of a time difference, rounded down.\<close>

definition timedelta_days :: "int \<Rightarrow> int \<Rightarrow> int" where
  "timedelta_days a b = (a - b) div ms_per_day"

datatype error = KeyError | IndexError | ValueError | NegativePeriods

definition halving_dates :: "datetime list" where
  "halving_dates =
     [Datetime 2012 11 28, Datetime 2016 7 9, Datetime 2020 5 11, Datetime 2024 5 12,
      Datetime 2028 5 12]"

definition get_halving_date :: "int \<Rightarrow> error + datetime" where
  "get_halving_date y =
     (case find (\<lambda>date. year date = y) halving_dates of
        Some date \<Rightarrow> Inr date
      | None \<Rightarrow> Inl ValueError)"

definition past_halvings :: "int \<Rightarrow> datetime list" where
  "past_halvings current_date = filter (\<lambda>date. epoch_ms date < current_date) halving_dates"

definition days_since_last_halving :: "int \<Rightarrow> int" where
  "days_since_last_halving current_date =
     (let past = past_halvings current_date
      in if past = [] then 0
         else timedelta_days current_date (Max (set (map epoch_ms past))))"

section \<open>Tables\<close>

text \<open>
  A loaded price table: the \<open>timestamp\<close> column and the numeric columns by name, in
  column order. Every column of a table has as many cells as the table has rows
  (\<open>wf_frame\<close>). A requested feature is the name of a numeric column.
\<close>

record frame =
  timestamp :: "int list"
  columns :: "(string \<times> real list) list"

definition wf_frame :: "frame \<Rightarrow> bool" where
  "wf_frame data = list_all (\<lambda>(name, c). length c = length (timestamp data)) (columns data)"

definition col :: "frame \<Rightarrow> string \<Rightarrow> error + real list" where
  "col data name =
     (case map_of (columns data) name of None \<Rightarrow> Inl KeyError | Some c \<Rightarrow> Inr c)"

text \<open>
  The index of a projected table is a range of daily timestamps, or, once pandas has
  had to make up an index for a table that had none, the integers \<open>0 .. n - 1\<close>.
\<close>

datatype table_index = DatetimeIndex "int list" | RangeIndex nat

fun index_length :: "table_index \<Rightarrow> nat" where
  "index_length (DatetimeIndex ts) = length ts"
| "index_length (RangeIndex n) = n"

record future_frame =
  index :: table_index
  fcolumns :: "(string \<times> fl list) list"

text \<open>
  \<open>pd.date_range(start, periods)\<close> with the daily default frequency. A negative number
  of periods is rejected with an exception.
\<close>

definition date_range :: "int \<Rightarrow> int \<Rightarrow> error + int list" where
  "date_range start periods =
     (if periods < 0 then Inl NegativePeriods
      else Inr (map (\<lambda>i. start + int i * ms_per_day) [0..<nat periods]))"

text \<open>
  \<open>future_data[feature] = values\<close> with a list. A table whose index is empty takes its
  index from a non-empty list of values (the integers from 0, and the columns it already
  has are filled with NaN); otherwise the list must be as long as the index.
\<close>

definition set_column :: "future_frame \<Rightarrow> string \<Rightarrow> fl list \<Rightarrow> error + future_frame" where
  "set_column fd name vals =
     (if index_length (index fd) = 0 \<and> vals \<noteq> [] then
        Inr \<lparr>index = RangeIndex (length vals),
             fcolumns = AList.update name vals
               (map (\<lambda>(n, c). (n, replicate (length vals) NaN)) (fcolumns fd))\<rparr>
      else if length vals \<noteq> index_length (index fd) then Inl ValueError
      else Inr (fd\<lparr>fcolumns := AList.update name vals (fcolumns fd)\<rparr>))"

section \<open>The projection engine\<close>

text \<open>
  \<open>Series.pct_change()\<close> is \<open>close / close.shift(1) - 1\<close>: the first cell is NaN, a
  zero predecessor gives an infinity, or NaN for 0/0. A series with its row labels is a
  list of label and value pairs; \<open>dropna\<close> removes the NaN cells and keeps the labels.
\<close>

definition pct_change :: "real list \<Rightarrow> fl list" where
  "pct_change xs =
     map (\<lambda>i. if i = 0 then NaN else fsub (fdiv (Fin (xs ! i)) (Fin (xs ! (i - 1)))) (Fin 1))
       [0..<length xs]"

definition dropna :: "(nat \<times> fl) list \<Rightarrow> (nat \<times> fl) list" where
  "dropna s = filter (\<lambda>(i, v). \<not> isna v) s"

definition series_max :: "real list \<Rightarrow> fl" where
  "series_max xs = (if xs = [] then NaN else Fin (Max (set xs)))"

text \<open>\<open>data['close'] > (all_time_high - threshold)\<close>, one truth value per row.\<close>

definition near_high_mask :: "real list \<Rightarrow> bool list" where
  "near_high_mask close =
     (let all_time_high = series_max close;
          threshold = fmul all_time_high (Fin (5 / 100))
      in map (\<lambda>c. fgt (Fin c) (fsub all_time_high threshold)) close)"

text \<open>
  \<open>pct_changes[mask]\<close>: the boolean series is aligned with \<open>pct_changes\<close> by row
  label, so the change labelled \<open>i\<close> (from bar \<open>i - 1\<close> to bar \<open>i\<close>) is kept when the
  mask holds at row \<open>i\<close>.
\<close>

definition at_high_pct_changes :: "real list \<Rightarrow> (nat \<times> fl) list" where
  "at_high_pct_changes close =
     (let pct_changes = dropna (zip [0..<length close] (pct_change close));
          mask = near_high_mask close
      in filter (\<lambda>(i, v). mask ! i) pct_changes)"

definition avg_pct_change_at_high :: "real list \<Rightarrow> fl" where
  "avg_pct_change_at_high close = fmean (map snd (at_high_pct_changes close))"

text \<open>
  \<open>future_values = [v]\<close>, then \<open>k\<close> times
  \<open>future_values.append(future_values[-1] * r)\<close>.
\<close>

fun future_values :: "fl \<Rightarrow> fl \<Rightarrow> nat \<Rightarrow> fl list" where
  "future_values v r 0 = [v]"
| "future_values v r (Suc k) = v # future_values (fmul v r) r k"

text \<open>\<open>data[features].iloc[-1]\<close>: the last value of each requested column.\<close>

definition last_values :: "frame \<Rightarrow> string list \<Rightarrow> error + (string \<times> real) list" where
  "last_values data features =
     (if \<not> list_all (\<lambda>f. map_of (columns data) f \<noteq> None) features then Inl KeyError
      else if timestamp data = [] then Inl IndexError
      else Inr (map (\<lambda>f. (f, last (the (map_of (columns data) f)))) features))"

text \<open>The loop over the features; \<open>range(1, days)\<close> runs \<open>days - 1\<close> times, or never.\<close>

fun fill_features ::
  "(string \<times> real) list \<Rightarrow> fl \<Rightarrow> int \<Rightarrow> string list \<Rightarrow> future_frame \<Rightarrow> error + future_frame"
where
  "fill_features lv avg days [] fd = Inr fd"
| "fill_features lv avg days (feature # fs) fd =
     (case map_of lv feature of
        None \<Rightarrow> Inl KeyError
      | Some v \<Rightarrow>
          (case set_column fd feature
                  (future_values (Fin v) (fadd (Fin 1) avg) (nat (days - 1))) of
             Inl e \<Rightarrow> Inl e
           | Inr fd' \<Rightarrow> fill_features lv avg days fs fd'))"

definition generate_future_features :: "frame \<Rightarrow> string list \<Rightarrow> int \<Rightarrow> error + future_frame" where
  "generate_future_features data features days =
     (case last_values data features of
        Inl e \<Rightarrow> Inl e
      | Inr lv \<Rightarrow>
     (case col data ''close'' of
        Inl e \<Rightarrow> Inl e
      | Inr close \<Rightarrow>
     (let avg = avg_pct_change_at_high close
      in case date_range (last (timestamp data) + ms_per_day) days of
           Inl e \<Rightarrow> Inl e
         | Inr idx \<Rightarrow>
             fill_features lv avg days features \<lparr>index = DatetimeIndex idx, fcolumns = []\<rparr>)))"

definition generate_features_to_halving :: "frame \<Rightarrow> string list \<Rightarrow> error + future_frame" where
  "generate_features_to_halving data features =
     (if timestamp data = [] then Inl IndexError
      else let last_known_date = last (timestamp data)
      in case last_values data features of
        Inl e \<Rightarrow> Inl e
      | Inr lv \<Rightarrow>
     (case get_halving_date 2024 of
        Inl e \<Rightarrow> Inl e
      | Inr halving_date \<Rightarrow>
     (let days_to_halving = timedelta_days (epoch_ms halving_date) last_known_date
      in case col data ''close'' of
        Inl e \<Rightarrow> Inl e
      | Inr close \<Rightarrow>
     (let avg = avg_pct_change_at_high close
      in case date_range (last_known_date + ms_per_day) days_to_halving of
           Inl e \<Rightarrow> Inl e
         | Inr idx \<Rightarrow>
             fill_features lv avg days_to_halving features
               \<lparr>index = DatetimeIndex idx, fcolumns = []\<rparr>))))"

text \<open>
  The reading of the restriction by the earlier bar of each pair, for comparison: the
  change from bar \<open>i - 1\<close> to bar \<open>i\<close> is kept when bar \<open>i - 1\<close> is in the band.
\<close>

definition changes_by_starting_bar :: "real list \<Rightarrow> (nat \<times> fl) list" where
  "changes_by_starting_bar close =
     (let pct_changes = dropna (zip [0..<length close] (pct_change close));
          mask = near_high_mask close
      in filter (\<lambda>(i, v). mask ! (i - 1)) pct_changes)"


section \<open>The script: preparation and headline trajectory\<close>

text \<open>
  The script works on one table, \<open>btc_data\<close>, as loaded. It is modelled in three stages
  that run one after the other: the preparation (volatility and days since the last
  halving), the headline trajectory, and the technical analysis.
\<close>

definition prepare :: "frame \<Rightarrow> error + frame" where
  "prepare btc_data =
     (case (map_of (columns btc_data) ''high'', map_of (columns btc_data) ''low'') of
        (Some high, Some low) \<Rightarrow>
          Inr (btc_data\<lparr>columns :=
                 AList.update ''days_since_halving''
                   (map (\<lambda>x. real_of_int (days_since_last_halving x)) (timestamp btc_data))
                   (AList.update ''volatility'' (map2 (-) high low) (columns btc_data))\<rparr>)
      | _ \<Rightarrow> Inl ValueError)"

text \<open>
  \<open>estimated_future_prices = [v]\<close>, then \<open>k\<close> times
  \<open>estimated_future_prices.append(estimated_future_prices[-1] + increment)\<close>, each sum
  rounded to a double.
\<close>

fun price_path :: "fl \<Rightarrow> fl \<Rightarrow> nat \<Rightarrow> fl list" where
  "price_path v increment 0 = [v]"
| "price_path v increment (Suc k) = v # price_path (float_add v increment) increment k"

text \<open>\<open>btc_data[btc_data['close'] >= (max_historical_price - threshold)]\<close>, as row numbers.\<close>

definition near_ath_rows :: "real list \<Rightarrow> nat list" where
  "near_ath_rows close =
     (let max_historical_price = series_max close;
          threshold = fmul max_historical_price (Fin (5 / 100))
      in filter (\<lambda>i. fge (Fin (close ! i)) (fsub max_historical_price threshold))
           [0..<length close])"

text \<open>
  The variables the headline stage leaves behind. In \<open>ath_average_volatility * 0.1\<close> the
  literal is the double nearest to 1/10 and the product is rounded to a double.
\<close>

record projection =
  future_dates :: "int list"
  ath_average_volatility :: fl
  increment :: fl
  estimated_future_prices :: "fl list"
  prices_index :: "int list"
  last_price :: fl

definition headline :: "frame \<Rightarrow> error + projection" where
  "headline btc_data =
     (if timestamp btc_data = [] then Inl IndexError
      else let last_date = last (timestamp btc_data);
               dates = map (\<lambda>i. last_date + int i * ms_per_day) [1..<365 * 7 + 1]
      in case col btc_data ''close'' of
        Inl e \<Rightarrow> Inl e
      | Inr close \<Rightarrow>
     (case col btc_data ''volatility'' of
        Inl e \<Rightarrow> Inl e
      | Inr volatility \<Rightarrow>
     (let max_historical_price = series_max close;
          avg_volatility = fmean (map (\<lambda>i. Fin (volatility ! i)) (near_ath_rows close));
          inc = float_mul avg_volatility (to_double (1 / 10));
          prices = price_path max_historical_price inc (365 * 7 - 1)
      in case date_range last_date (365 * 7) of
           Inl e \<Rightarrow> Inl e
         | Inr idx \<Rightarrow>
             Inr \<lparr>future_dates = dates, ath_average_volatility = avg_volatility,
                  increment = inc, estimated_future_prices = prices,
                  prices_index = idx, last_price = last prices\<rparr>)))"

definition estimate_future_prices :: "frame \<Rightarrow> error + projection" where
  "estimate_future_prices btc_data =
     (case prepare btc_data of Inl e \<Rightarrow> Inl e | Inr prepared \<Rightarrow> headline prepared)"

section \<open>The script: technical analysis\<close>

text \<open>
  The enriched table holds floating-point cells. The column names built by the two loops
  (\<open>f'lagged_close_{lag}'\<close>, \<open>f'rolling_mean_{window}'\<close>, \<open>f'rolling_std_{window}'\<close>) are
  written out.
\<close>

record table =
  rows_timestamp :: "int list"
  rows_columns :: "(string \<times> fl list) list"

definition add_lagged :: "real list \<Rightarrow> (string \<times> fl list) list \<Rightarrow> (string \<times> fl list) list" where
  "add_lagged close cols =
     foldl (\<lambda>cs (lag, name). AList.update name (shift lag close) cs) cols
       [(1, ''lagged_close_1''), (3, ''lagged_close_3''), (7, ''lagged_close_7''),
        (14, ''lagged_close_14''), (30, ''lagged_close_30'')]"

definition add_rolling :: "real list \<Rightarrow> (string \<times> fl list) list \<Rightarrow> (string \<times> fl list) list" where
  "add_rolling close cols =
     foldl (\<lambda>cs (w, mean_name, std_name).
              AList.update std_name (rolling_std w close)
                (AList.update mean_name (rolling_mean w (map Fin close)) cs)) cols
       [(7, ''rolling_mean_7'', ''rolling_std_7''), (14, ''rolling_mean_14'', ''rolling_std_14''),
        (30, ''rolling_mean_30'', ''rolling_std_30'')]"

text \<open>\<open>dropna()\<close> keeps the rows without a NaN cell; \<open>reset_index(drop=True)\<close> renumbers them.\<close>

definition complete_rows :: "nat \<Rightarrow> (string \<times> fl list) list \<Rightarrow> nat list" where
  "complete_rows n cols = filter (\<lambda>i. list_all (\<lambda>(name, c). \<not> isna (c ! i)) cols) [0..<n]"

definition dropna_rows :: "int list \<Rightarrow> (string \<times> fl list) list \<Rightarrow> table" where
  "dropna_rows ts cols =
     (let kept = complete_rows (length ts) cols
      in \<lparr>rows_timestamp = map (\<lambda>i. ts ! i) kept,
          rows_columns = map (\<lambda>(name, c). (name, map (\<lambda>i. c ! i) kept)) cols\<rparr>)"

definition technical_analysis :: "frame \<Rightarrow> error + table" where
  "technical_analysis btc_data =
     (case col btc_data ''open'' of
        Inl e \<Rightarrow> Inl e
      | Inr opn \<Rightarrow>
     (case col btc_data ''close'' of
        Inl e \<Rightarrow> Inl e
      | Inr close \<Rightarrow>
     (let cols0 = map (\<lambda>(name, c). (name, map Fin c)) (columns btc_data);
          cols1 = AList.update ''open_ma_7'' (rolling_mean 7 (map Fin opn)) cols0;
          cols2 = AList.update ''rsi'' (relative_strength_idx close 14) cols1;
          cols3 = add_lagged close cols2;
          cols4 = add_rolling close cols3
      in Inr (dropna_rows (timestamp btc_data) cols4))))"

text \<open>
  The whole script up to the enriched table: the technical analysis is reached only when
  the preparation and the headline trajectory, which leaves the table as it is, have not
  failed.
\<close>

definition enriched :: "frame \<Rightarrow> error + table" where
  "enriched btc_data =
     (case prepare btc_data of
        Inl e \<Rightarrow> Inl e
      | Inr prepared \<Rightarrow>
          (case headline prepared of
             Inl e \<Rightarrow> Inl e
           | Inr projected \<Rightarrow> technical_analysis prepared))"

section \<open>Auxiliary predicates\<close>

definition nonneg_fin :: "fl \<Rightarrow> bool" where
  "nonneg_fin x = (case x of Fin r \<Rightarrow> 0 \<le> r | _ \<Rightarrow> False)"

definition nan_or_nonneg :: "fl \<Rightarrow> bool" where
  "nan_or_nonneg x = (x = NaN \<or> nonneg_fin x)"

definition fin_or_pinf :: "fl \<Rightarrow> bool" where
  "fin_or_pinf x = (case x of Fin r \<Rightarrow> True | PInf \<Rightarrow> True | _ \<Rightarrow> False)"

definition complete_from :: "nat \<Rightarrow> nat \<Rightarrow> (string \<times> fl list) list \<Rightarrow> bool" where
  "complete_from k n cols = (\<forall>(name, c)\<in>set cols. \<forall>i. k \<le> i \<and> i < n \<longrightarrow> \<not> isna (c ! i))"

definition row_count :: "error + table \<Rightarrow> error + nat" where
  "row_count r = (case r of Inl e \<Rightarrow> Inl e | Inr t \<Rightarrow> Inr (length (rows_timestamp t)))"

definition headline_increment :: "frame \<Rightarrow> error + fl" where
  "headline_increment d =
     (case estimate_future_prices d of Inl e \<Rightarrow> Inl e | Inr p \<Rightarrow> Inr (increment p))"

definition headline_prices :: "nat \<Rightarrow> frame \<Rightarrow> error + fl list" where
  "headline_prices k d =
     (case estimate_future_prices d of
        Inl e \<Rightarrow> Inl e
      | Inr p \<Rightarrow> Inr (take k (estimated_future_prices p)))"

section \<open>Facts about the relative strength index\<close>

lemma length_diff [simp]: "length (diff xs) = length xs"
  by (simp add: diff_def)

lemma length_gain [simp]: "length (gain xs) = length xs"
  by (simp add: gain_def)

lemma length_loss [simp]: "length (loss xs) = length xs"
  by (simp add: loss_def)

lemma length_rolling_mean [simp]: "length (rolling_mean w xs) = length xs"
  by (simp add: rolling_mean_def)

lemma nonneg_finE: "nonneg_fin x \<Longrightarrow> \<exists>r. x = Fin r \<and> 0 \<le> r"
  by (cases x) (simp_all add: nonneg_fin_def)

lemma gain_nonneg: "x \<in> set (gain close) \<Longrightarrow> nonneg_fin x"
  by (auto simp: gain_def diff_def nonneg_fin_def split: if_splits)

lemma loss_nonneg: "x \<in> set (loss close) \<Longrightarrow> nonneg_fin x"
  by (auto simp: loss_def diff_def nonneg_fin_def flt_def split: if_splits)

lemma foldl_fadd_nonneg:
  "\<forall>x\<in>set xs. nonneg_fin x \<Longrightarrow> \<exists>s. 0 \<le> s \<and> foldl fadd (Fin a) xs = Fin (a + s)"
proof (induction xs arbitrary: a)
  case Nil
  then show ?case by simp
next
  case (Cons x xs)
  have "nonneg_fin x" using Cons.prems by simp
  then obtain r where r: "x = Fin r" "0 \<le> r"
    using nonneg_finE by blast
  have "\<forall>y\<in>set xs. nonneg_fin y" using Cons.prems by simp
  from Cons.IH [OF this, of "a + r"]
  obtain s where s: "0 \<le> s" "foldl fadd (Fin (a + r)) xs = Fin (a + r + s)"
    by blast
  have "0 \<le> r + s" using r s by simp
  moreover have "foldl fadd (Fin a) (x # xs) = Fin (a + (r + s))"
    using r s by (simp add: add.assoc)
  ultimately show ?case by blast
qed

lemma fsum_nonneg:
  assumes "\<forall>x\<in>set xs. nonneg_fin x"
  shows "nonneg_fin (fsum xs)"
proof -
  from foldl_fadd_nonneg [OF assms, of 0]
  obtain s where "0 \<le> s" "foldl fadd (Fin 0) xs = Fin (0 + s)" by blast
  then show ?thesis by (simp add: fsum_def nonneg_fin_def)
qed

lemma set_window: "set (window w i xs) \<subseteq> set xs"
proof -
  have "set (take w (drop (i + 1 - w) xs)) \<subseteq> set (drop (i + 1 - w) xs)"
    by (rule set_take_subset)
  also have "\<dots> \<subseteq> set xs" by (rule set_drop_subset)
  finally show ?thesis by (simp add: window_def)
qed

lemma rolling_mean_nth:
  "i < length xs \<Longrightarrow>
   rolling_mean w xs ! i = (if i + 1 < w then NaN else fdiv (fsum (window w i xs)) (Fin (real w)))"
  by (simp add: rolling_mean_def)

lemma rolling_mean_nonneg:
  assumes "\<forall>x\<in>set xs. nonneg_fin x" "y \<in> set (rolling_mean w xs)"
  shows "nan_or_nonneg y"
proof -
  from assms(2) obtain i where i: "i < length (rolling_mean w xs)" "y = rolling_mean w xs ! i"
    unfolding in_set_conv_nth by blast
  then have il: "i < length xs" by simp
  have "\<forall>x\<in>set (window w i xs). nonneg_fin x"
    using assms(1) set_window [of w i xs] by blast
  then have "nonneg_fin (fsum (window w i xs))"
    by (rule fsum_nonneg)
  then obtain s where s: "fsum (window w i xs) = Fin s" "0 \<le> s"
    using nonneg_finE by blast
  show ?thesis
  proof (cases "w = 0")
    case True
    then show ?thesis
      unfolding i(2) rolling_mean_nth [OF il]
      by (simp add: window_def fsum_def nan_or_nonneg_def)
  next
    case False
    then show ?thesis
      unfolding i(2) rolling_mean_nth [OF il]
      using s by (simp add: nan_or_nonneg_def nonneg_fin_def)
  qed
qed

lemma rsi_of_NaN [simp]: "rsi_of NaN l = NaN" "rsi_of g NaN = NaN"
  by (cases l; simp add: rsi_of_def fsub_def) (cases g; simp add: rsi_of_def fsub_def)

lemma rsi_of_zero_loss:
  "0 \<le> a \<Longrightarrow> rsi_of (Fin a) (Fin 0) = (if a = 0 then NaN else Fin 100)"
  by (simp add: rsi_of_def fsub_def)

lemma rsi_of_pos_loss:
  assumes "0 \<le> a" "0 < b"
  shows "rsi_of (Fin a) (Fin b) = Fin (100 - 100 / (1 + a / b))"
proof -
  have "1 + a / b \<noteq> 0"
    using assms by (smt (verit) divide_nonneg_pos)
  then show ?thesis
    using assms by (simp add: rsi_of_def fsub_def)
qed

lemma rsi_real_range:
  fixes q :: real
  assumes "0 \<le> q"
  shows "0 \<le> 100 - 100 / (1 + q)" "100 - 100 / (1 + q) \<le> 100"
proof -
  have p: "0 < 1 + q" using assms by linarith
  have "100 / (1 + q) \<le> 100 / 1"
    using assms by (intro divide_left_mono) simp_all
  then show "0 \<le> 100 - 100 / (1 + q)" by simp
  have "0 \<le> 100 / (1 + q)"
    using p by simp
  then show "100 - 100 / (1 + q) \<le> 100" by simp
qed

lemma rsi_of_range:
  assumes "nan_or_nonneg g" "nan_or_nonneg l"
  shows "\<exists>r. fillna (Fin 50) (rsi_of g l) = Fin r \<and> 0 \<le> r \<and> r \<le> 100"
proof (cases "g = NaN \<or> l = NaN")
  case True
  then have "rsi_of g l = NaN" by auto
  then show ?thesis
    by (simp add: fillna_def isna_def)
next
  case False
  then obtain a b where ab: "g = Fin a" "0 \<le> a" "l = Fin b" "0 \<le> b"
    using assms by (cases g; cases l) (simp_all add: nan_or_nonneg_def nonneg_fin_def)
  show ?thesis
  proof (cases "b = 0")
    case True
    then show ?thesis
      using ab by (simp add: rsi_of_zero_loss fillna_def isna_def)
  next
    case False
    then have b: "0 < b" using ab by simp
    have "0 \<le> a / b" using ab b by simp
    then show ?thesis
      using rsi_real_range [of "a / b"] ab b
      by (simp add: rsi_of_pos_loss fillna_def isna_def)
  qed
qed

lemma rolling_mean_full:
  assumes "\<forall>x\<in>set xs. nonneg_fin x" "i < length xs" "0 < w" "w \<le> i + 1"
  shows "\<exists>m. 0 \<le> m \<and> rolling_mean w xs ! i = Fin m"
proof -
  have "\<forall>x\<in>set (window w i xs). nonneg_fin x"
    using assms(1) set_window [of w i xs] by blast
  then have "nonneg_fin (fsum (window w i xs))"
    by (rule fsum_nonneg)
  then obtain s where s: "fsum (window w i xs) = Fin s" "0 \<le> s"
    using nonneg_finE by blast
  have "rolling_mean w xs ! i = Fin (s / real w)"
    unfolding rolling_mean_nth [OF assms(2)] using s assms(3,4) by simp
  moreover have "0 \<le> s / real w" using s by simp
  ultimately show ?thesis by blast
qed

lemma relative_strength_idx_nth:
  "i < length close \<Longrightarrow>
   relative_strength_idx close n ! i =
     fillna (Fin 50) (rsi_of (avg_gain n close ! i) (avg_loss n close ! i))"
  by (simp add: relative_strength_idx_def avg_gain_def avg_loss_def)

lemma relative_strength_idx_range:
  "\<forall>x\<in>set (relative_strength_idx close n). \<exists>r. x = Fin r \<and> 0 \<le> r \<and> r \<le> 100"
proof
  fix x assume "x \<in> set (relative_strength_idx close n)"
  then obtain g l where gl: "(g, l) \<in> set (zip (avg_gain n close) (avg_loss n close))"
    and x: "x = fillna (Fin 50) (rsi_of g l)"
    by (auto simp: relative_strength_idx_def)
  from gl have "g \<in> set (avg_gain n close)" "l \<in> set (avg_loss n close)"
    by (auto dest: set_zip_leftD set_zip_rightD)
  then have "nan_or_nonneg g" "nan_or_nonneg l"
    unfolding avg_gain_def avg_loss_def
    using rolling_mean_nonneg gain_nonneg loss_nonneg by blast+
  then show "\<exists>r. x = Fin r \<and> 0 \<le> r \<and> r \<le> 100"
    unfolding x by (rule rsi_of_range)
qed

text \<open>
  Claim C9. For every input series and every bar, the value returned by
  \<open>relative_strength_idx\<close> is a finite number in the closed interval from 0 to 100
  (for every window length \<open>n\<close>, in particular the default 14).
\<close>

theorem rsi_in_range:
  "\<forall>x\<in>set (relative_strength_idx close n). \<exists>r. x = Fin r \<and> 0 \<le> r \<and> r \<le> 100"
  by (rule relative_strength_idx_range)

theorem rsi_in_range_witness:
  "relative_strength_idx [1,2,3,4,5,6,7,8,9,10,11,12,13,14] 14 ! 13
     \<in> set (relative_strength_idx [1,2,3,4,5,6,7,8,9,10,11,12,13,14] 14)
   \<and> (\<exists>r. relative_strength_idx [1,2,3,4,5,6,7,8,9,10,11,12,13,14] 14 ! 13 = Fin r
          \<and> 0 \<le> r \<and> r \<le> 100)"
proof -
  have m: "relative_strength_idx [1,2,3,4,5,6,7,8,9,10,11,12,13,14] 14 ! 13
     \<in> set (relative_strength_idx [1,2,3,4,5,6,7,8,9,10,11,12,13,14] 14)"
    by (rule nth_mem) (simp add: relative_strength_idx_def avg_gain_def avg_loss_def)
  from rsi_in_range [rule_format, OF m] m show ?thesis by blast
qed

text \<open>
  Claim C1, as stated, fails: on fourteen strictly rising closes the rolling average
  loss of the last bar is exactly 0 and the rolling average gain is positive, so
  \<open>rs\<close> is \<open>+inf\<close>, not NaN, \<open>fillna\<close> leaves the cell alone, and the RSI is 100.
\<close>

theorem rsi_zero_loss_counterexample:
  "avg_loss 14 [1,2,3,4,5,6,7,8,9,10,11,12,13,14] ! 13 = Fin 0
   \<and> relative_strength_idx [1,2,3,4,5,6,7,8,9,10,11,12,13,14] 14 ! 13 = Fin 100
   \<and> relative_strength_idx [1,2,3,4,5,6,7,8,9,10,11,12,13,14] 14 ! 13 \<noteq> Fin 50"
  by code_simp

text \<open>
  Claim C1, amended. For every input series and every bar whose trailing \<open>n\<close>-bar
  window is complete, whenever the rolling average loss over that window is exactly 0,
  the RSI of that bar is the neutral value 50 if the rolling average gain is 0 as well
  (no price movement in the window), and 100 otherwise.
\<close>

theorem rsi_zero_loss:
  assumes "i < length close" "0 < n" "n \<le> i + 1" "avg_loss n close ! i = Fin 0"
  shows "relative_strength_idx close n ! i =
           (if avg_gain n close ! i = Fin 0 then Fin 50 else Fin 100)"
proof -
  have "\<forall>x\<in>set (gain close). nonneg_fin x"
    using gain_nonneg by blast
  from rolling_mean_full [OF this _ assms(2,3)] assms(1)
  obtain a where a: "0 \<le> a" "avg_gain n close ! i = Fin a"
    unfolding avg_gain_def by auto
  show ?thesis
    unfolding relative_strength_idx_nth [OF assms(1)] assms(4) a(2)
    using a(1) by (simp add: rsi_of_zero_loss fillna_def isna_def)
qed

theorem rsi_zero_loss_witness:
  "(13::nat) < length [1,2,3,4,5,6,7,8,9,10,11,12,13,14::real] \<and> (0::nat) < 14
   \<and> (14::nat) \<le> 13 + 1
   \<and> avg_loss 14 [1,2,3,4,5,6,7,8,9,10,11,12,13,14] ! 13 = Fin 0
   \<and> relative_strength_idx [1,2,3,4,5,6,7,8,9,10,11,12,13,14] 14 ! 13 =
       (if avg_gain 14 [1,2,3,4,5,6,7,8,9,10,11,12,13,14] ! 13 = Fin 0 then Fin 50 else Fin 100)"
proof -
  have l: "avg_loss 14 [1,2,3,4,5,6,7,8,9,10,11,12,13,14] ! 13 = Fin 0"
    by code_simp
  have n: "(13::nat) < length [1,2,3,4,5,6,7,8,9,10,11,12,13,14::real]" by simp
  from rsi_zero_loss [OF n _ _ l] l n show ?thesis by simp
qed

section \<open>Facts about the halving calendar\<close>

lemma epoch_ms_halving_dates:
  "map epoch_ms halving_dates =
     [1354060800000, 1468022400000, 1589155200000, 1715472000000, 1841702400000]"
  by code_simp

lemma past_halvings_early:
  assumes "d \<le> 1354060800000"
  shows "past_halvings d = []"
proof -
  have "\<forall>x\<in>set (map epoch_ms halving_dates). \<not> x < d"
    unfolding epoch_ms_halving_dates using assms by simp
  then have "filter (\<lambda>date. epoch_ms date < d) halving_dates = []"
    by (simp add: filter_empty_conv)
  then show ?thesis by (simp add: past_halvings_def)
qed

lemma days_since_last_halving_later:
  "past_halvings d \<noteq> [] \<Longrightarrow>
   days_since_last_halving d = (d - Max (set (map epoch_ms (past_halvings d)))) div ms_per_day"
  by (simp add: days_since_last_halving_def timedelta_days_def Let_def)

lemma div_shift_whole_days:
  fixes a b :: int
  assumes "(b - a) mod ms_per_day = 0"
  shows "(b - m) div ms_per_day - (a - m) div ms_per_day = (b - a) div ms_per_day"
proof -
  from assms have "ms_per_day dvd b - a"
    by (simp add: mod_eq_0_iff_dvd)
  then obtain k where k: "b - a = ms_per_day * k"
    unfolding dvd_def by blast
  have nz: "ms_per_day \<noteq> 0" by (simp add: ms_per_day_def)
  have "b - m = (a - m) + k * ms_per_day"
    using k by (simp only: algebra_simps)
  then have "(b - m) div ms_per_day = ((a - m) + k * ms_per_day) div ms_per_day"
    by (simp only:)
  also have "\<dots> = k + (a - m) div ms_per_day"
    using nz by (rule div_mult_self1)
  finally have 1: "(b - m) div ms_per_day = k + (a - m) div ms_per_day" .
  have "(b - a) div ms_per_day = (ms_per_day * k) div ms_per_day"
    using k by (simp only:)
  also have "\<dots> = k" using nz by simp
  finally have 2: "(b - a) div ms_per_day = k" .
  show ?thesis unfolding 1 2 by simp
qed

text \<open>
  Claim C8, amended. \<open>days_since_last_halving d\<close> is 0 for every \<open>d\<close> at or before
  the earliest reference date; and for two timestamps \<open>d1 < d2\<close> with the same
  non-empty list of earlier reference dates (both after the same most recent reference
  date and not after the next one) that are a whole number of days apart, the difference
  of their day counts is the whole-day count of \<open>d2 - d1\<close>.
\<close>

theorem days_since_last_halving_additive:
  "(d \<le> epoch_ms (Datetime 2012 11 28) \<longrightarrow> days_since_last_halving d = 0) \<and>
   (d1 < d2 \<and> past_halvings d1 = past_halvings d2 \<and> past_halvings d1 \<noteq> []
      \<and> (d2 - d1) mod ms_per_day = 0 \<longrightarrow>
    days_since_last_halving d2 - days_since_last_halving d1 = timedelta_days d2 d1)"
proof (intro conjI impI)
  assume "d \<le> epoch_ms (Datetime 2012 11 28)"
  moreover have "epoch_ms (Datetime 2012 11 28) = 1354060800000"
    using epoch_ms_halving_dates by (simp add: halving_dates_def)
  ultimately have "past_halvings d = []"
    using past_halvings_early by simp
  then show "days_since_last_halving d = 0"
    by (simp add: days_since_last_halving_def)
next
  assume a: "d1 < d2 \<and> past_halvings d1 = past_halvings d2 \<and> past_halvings d1 \<noteq> []
      \<and> (d2 - d1) mod ms_per_day = 0"
  from a have p1: "past_halvings d1 \<noteq> []" by blast
  from a have e0: "past_halvings d1 = past_halvings d2" by blast
  from a have w: "(d2 - d1) mod ms_per_day = 0" by blast
  have eq: "past_halvings d2 = past_halvings d1" using e0 by (rule sym)
  have p2: "past_halvings d2 \<noteq> []" using p1 unfolding e0 .
  have 1: "days_since_last_halving d1 =
      (d1 - Max (set (map epoch_ms (past_halvings d1)))) div ms_per_day"
    using p1 by (rule days_since_last_halving_later)
  have 2: "days_since_last_halving d2 =
      (d2 - Max (set (map epoch_ms (past_halvings d1)))) div ms_per_day"
    using days_since_last_halving_later [OF p2] unfolding eq .
  show "days_since_last_halving d2 - days_since_last_halving d1 = timedelta_days d2 d1"
    unfolding 1 2 timedelta_days_def using w by (rule div_shift_whole_days)
qed

text \<open>
  Claim C8, as stated, fails for timestamps with a time of day: 2012-11-28 23:00 and
  2012-11-29 01:00 both follow the first reference date (2012-11-28 00:00) and precede
  the second; their day counts are 0 and 1, while the two hours between them make 0
  whole days.
\<close>

theorem days_since_last_halving_counterexample:
  "(1354143600000::int) < 1354150800000
   \<and> past_halvings 1354143600000 = past_halvings 1354150800000
   \<and> past_halvings 1354143600000 \<noteq> []
   \<and> days_since_last_halving 1354150800000 - days_since_last_halving 1354143600000 = 1
   \<and> timedelta_days 1354150800000 1354143600000 = 0"
  by code_simp

theorem days_since_last_halving_additive_witness:
  "(0 \<le> epoch_ms (Datetime 2012 11 28) \<and> days_since_last_halving 0 = 0) \<and>
   ((1354147200000::int) < 1354320000000
     \<and> past_halvings 1354147200000 = past_halvings 1354320000000
     \<and> past_halvings 1354147200000 \<noteq> []
     \<and> (1354320000000 - 1354147200000) mod ms_per_day = 0
     \<and> days_since_last_halving 1354320000000 - days_since_last_halving 1354147200000
         = timedelta_days 1354320000000 1354147200000)"
proof -
  have h: "(0::int) \<le> epoch_ms (Datetime 2012 11 28)" by code_simp
  have p: "(1354147200000::int) < 1354320000000
     \<and> past_halvings 1354147200000 = past_halvings 1354320000000
     \<and> past_halvings 1354147200000 \<noteq> []
     \<and> (1354320000000 - 1354147200000) mod ms_per_day = 0"
    by code_simp
  from days_since_last_halving_additive [of 0 1354147200000 1354320000000] h p show ?thesis by blast
qed

section \<open>Facts about the near-all-time-high average\<close>

lemma near_high_mask_nth:
  assumes "i < length close"
  shows "near_high_mask close ! i = (Max (set close) - Max (set close) * (5 / 100) < close ! i)"
proof -
  have "close \<noteq> []" using assms by auto
  then show ?thesis
    using assms by (simp add: near_high_mask_def series_max_def fsub_def)
qed

lemma length_pct_change [simp]: "length (pct_change xs) = length xs"
  by (simp add: pct_change_def)

lemma pct_change_nth:
  "i < length xs \<Longrightarrow>
   pct_change xs ! i =
     (if i = 0 then NaN else fsub (fdiv (Fin (xs ! i)) (Fin (xs ! (i - 1)))) (Fin 1))"
  by (simp add: pct_change_def)

lemma isna_NaN: "isna NaN"
  by (simp add: isna_def)

lemma isna_pct: "isna (fsub (fdiv (Fin a) (Fin b)) (Fin 1)) \<longleftrightarrow> a = 0 \<and> b = 0"
  by (simp add: isna_def fsub_def)

lemma labelled_pct_change:
  "zip [0..<length xs] (pct_change xs) = map (\<lambda>i. (i, pct_change xs ! i)) [0..<length xs]"
proof (rule nth_equalityI)
  show "length (zip [0..<length xs] (pct_change xs))
      = length (map (\<lambda>i. (i, pct_change xs ! i)) [0..<length xs])"
    by simp
next
  fix i assume "i < length (zip [0..<length xs] (pct_change xs))"
  then have "i < length xs" by simp
  then show "zip [0..<length xs] (pct_change xs) ! i
      = map (\<lambda>i. (i, pct_change xs ! i)) [0..<length xs] ! i"
    by simp
qed

lemma at_high_pct_changes_eq:
  "at_high_pct_changes close =
     map (\<lambda>i. (i, fsub (fdiv (Fin (close ! i)) (Fin (close ! (i - 1)))) (Fin 1)))
       (filter (\<lambda>i. 0 < i \<and> \<not> (close ! i = 0 \<and> close ! (i - 1) = 0)
                  \<and> Max (set close) - Max (set close) * (5 / 100) < close ! i)
          [0..<length close])"
proof -
  let ?n = "length close"
  let ?g = "\<lambda>i. (i, pct_change close ! i)"
  let ?h = "\<lambda>i. (i, fsub (fdiv (Fin (close ! i)) (Fin (close ! (i - 1)))) (Fin 1))"
  let ?P = "\<lambda>i. \<not> isna (pct_change close ! i) \<and> near_high_mask close ! i"
  let ?Q = "\<lambda>i. 0 < i \<and> \<not> (close ! i = 0 \<and> close ! (i - 1) = 0)
                  \<and> Max (set close) - Max (set close) * (5 / 100) < close ! i"
  have 1: "at_high_pct_changes close = map ?g (filter ?P [0..<?n])"
    unfolding at_high_pct_changes_def dropna_def Let_def labelled_pct_change
    by (simp add: filter_map comp_def)
  have 2: "filter ?P [0..<?n] = filter ?Q [0..<?n]"
  proof (rule filter_cong [OF refl])
    fix i assume "i \<in> set [0..<?n]"
    then have i: "i < ?n" by simp
    show "?P i = ?Q i"
      unfolding near_high_mask_nth [OF i] pct_change_nth [OF i]
      by (cases "i = 0") (auto simp: isna_def fsub_def)
  qed
  have 3: "map ?g (filter ?Q [0..<?n]) = map ?h (filter ?Q [0..<?n])"
  proof (rule map_cong [OF refl])
    fix i assume "i \<in> set (filter ?Q [0..<?n])"
    then have "i < ?n" "0 < i" by simp_all
    then show "?g i = ?h i" by (simp add: pct_change_nth)
  qed
  show ?thesis unfolding 1 2 3 ..
qed

text \<open>
  Claim C3, amended. In both projection strategies \<open>avg_pct_change_at_high\<close> is the
  average of exactly those period-over-period percentage changes of close that are not
  NaN and whose ending bar (the later bar of the pair, the row that carries the change)
  has a close strictly above 95% of the maximum close.
\<close>

theorem avg_pct_change_at_high_ending_bar:
  "avg_pct_change_at_high close =
     fmean (map (\<lambda>i. fsub (fdiv (Fin (close ! i)) (Fin (close ! (i - 1)))) (Fin 1))
       (filter (\<lambda>i. 0 < i \<and> \<not> (close ! i = 0 \<and> close ! (i - 1) = 0)
                  \<and> Max (set close) - Max (set close) * (5 / 100) < close ! i)
          [0..<length close]))"
  unfolding avg_pct_change_at_high_def at_high_pct_changes_eq
  by (simp add: comp_def)

theorem avg_pct_change_at_high_ending_bar_witness:
  "avg_pct_change_at_high [50, 100] =
     fmean (map (\<lambda>i. fsub (fdiv (Fin ([50, 100] ! i)) (Fin ([50, 100] ! (i - 1)))) (Fin 1))
       (filter (\<lambda>i. 0 < i \<and> \<not> ([50, 100 :: real] ! i = 0 \<and> [50, 100 :: real] ! (i - 1) = 0)
                  \<and> Max (set [50, 100 :: real]) - Max (set [50, 100 :: real]) * (5 / 100)
                      < [50, 100 :: real] ! i)
          [0..<length [50, 100 :: real]]))
   \<and> avg_pct_change_at_high [50, 100] = Fin 1"
proof -
  have "avg_pct_change_at_high [50, 100] = Fin 1" by code_simp
  with avg_pct_change_at_high_ending_bar [of "[50, 100]"] show ?thesis by blast
qed

text \<open>
  Claim C3, as stated, fails: for the closes 50, 100 the only change (+100%) starts at a
  bar outside the band and ends at the maximum. The code keeps it (the average is 1);
  restricting by the starting bar would keep nothing (the average would be NaN).
\<close>

theorem avg_pct_change_at_high_counterexample:
  "avg_pct_change_at_high [50, 100] = Fin 1
   \<and> fmean (map snd (changes_by_starting_bar [50, 100])) = NaN"
  by code_simp


lemma fin_or_pinf_not_na: "fin_or_pinf x \<Longrightarrow> \<not> isna x"
  by (cases x) (simp_all add: fin_or_pinf_def isna_def)

lemma fadd_fin_or_pinf: "fin_or_pinf a \<Longrightarrow> fin_or_pinf b \<Longrightarrow> fin_or_pinf (fadd a b)"
  by (cases a; cases b) (simp_all add: fin_or_pinf_def)

lemma foldl_fin_or_pinf:
  "fin_or_pinf a \<Longrightarrow> \<forall>x\<in>set xs. fin_or_pinf x \<Longrightarrow> fin_or_pinf (foldl fadd a xs)"
proof (induction xs arbitrary: a)
  case Nil
  then show ?case by simp
next
  case (Cons x xs)
  have "fin_or_pinf (fadd a x)"
    using Cons.prems by (intro fadd_fin_or_pinf) simp_all
  moreover have "\<forall>y\<in>set xs. fin_or_pinf y" using Cons.prems by simp
  ultimately have "fin_or_pinf (foldl fadd (fadd a x) xs)" by (rule Cons.IH)
  then show ?case by simp
qed

lemma fdiv_fin_or_pinf: "fin_or_pinf a \<Longrightarrow> 0 < n \<Longrightarrow> fin_or_pinf (fdiv a (Fin n))"
  by (cases a) (simp_all add: fin_or_pinf_def)

lemma fmean_fin_or_pinf:
  assumes "xs \<noteq> []" "\<forall>x\<in>set xs. fin_or_pinf x"
  shows "fin_or_pinf (fmean xs)"
proof -
  have f: "filter (\<lambda>x. \<not> isna x) xs = xs"
    using assms(2) fin_or_pinf_not_na by (simp add: filter_id_conv)
  have z: "fin_or_pinf (Fin 0)" by (simp add: fin_or_pinf_def)
  have s: "fin_or_pinf (fsum xs)"
    unfolding fsum_def using z assms(2) by (rule foldl_fin_or_pinf)
  have l: "0 < real (length xs)" using assms(1) by simp
  have "fmean xs = fdiv (fsum xs) (Fin (real (length xs)))"
    using assms(1) by (simp add: fmean_def f)
  then show ?thesis using fdiv_fin_or_pinf [OF s l] by simp
qed

lemma pct_fin_or_pinf: "0 < a \<Longrightarrow> fin_or_pinf (fsub (fdiv (Fin a) (Fin b)) (Fin 1))"
  by (simp add: fsub_def fin_or_pinf_def)

text \<open>
  Claim C10. In \<open>generate_future_features\<close>, every bar whose close attains the series
  maximum satisfies the band predicate whenever the maximum close is positive; hence,
  when the maximum is attained at some bar after the first, the restricted list of
  percentage changes is not empty and \<open>avg_pct_change_at_high\<close> is not NaN.
\<close>

theorem max_bar_in_band:
  assumes "0 < Max (set close)" "i < length close" "close ! i = Max (set close)"
  shows "near_high_mask close ! i \<and>
         (0 < i \<longrightarrow> at_high_pct_changes close \<noteq> [] \<and> \<not> isna (avg_pct_change_at_high close))"
proof (intro conjI impI)
  let ?M = "Max (set close)"
  let ?Q = "\<lambda>i. 0 < i \<and> \<not> (close ! i = 0 \<and> close ! (i - 1) = 0)
                  \<and> ?M - ?M * (5 / 100) < close ! i"
  let ?h = "\<lambda>i. (i, fsub (fdiv (Fin (close ! i)) (Fin (close ! (i - 1)))) (Fin 1))"
  have band: "?M - ?M * (5 / 100) < close ! i"
    using assms(1,3) by simp
  have low: "0 < ?M - ?M * (5 / 100)"
    using assms(1) by simp
  show "near_high_mask close ! i"
    unfolding near_high_mask_nth [OF assms(2)] by (rule band)
  {
    assume pos: "0 < i"
    have "?Q i" using pos band assms(1,3) by simp
    then have mem: "i \<in> set (filter ?Q [0..<length close])"
      using assms(2) by simp
    then have ne: "filter ?Q [0..<length close] \<noteq> []"
      by (metis empty_iff empty_set)
    then show "at_high_pct_changes close \<noteq> []"
      unfolding at_high_pct_changes_eq by simp
    have all: "\<forall>x\<in>set (map snd (at_high_pct_changes close)). fin_or_pinf x"
    proof
      fix x assume "x \<in> set (map snd (at_high_pct_changes close))"
      then obtain j where j: "j \<in> set (filter ?Q [0..<length close])" and x: "x = snd (?h j)"
        unfolding at_high_pct_changes_eq by auto
      from j have "?M - ?M * (5 / 100) < close ! j" by simp
      then have "0 < close ! j" using low by linarith
      then show "fin_or_pinf x" unfolding x snd_conv by (rule pct_fin_or_pinf)
    qed
    have "map snd (at_high_pct_changes close) \<noteq> []"
      unfolding at_high_pct_changes_eq using ne by simp
    then have "fin_or_pinf (fmean (map snd (at_high_pct_changes close)))"
      using all by (rule fmean_fin_or_pinf)
    then show "\<not> isna (avg_pct_change_at_high close)"
      unfolding avg_pct_change_at_high_def by (rule fin_or_pinf_not_na)
  }
qed

theorem max_bar_in_band_witness:
  "0 < Max (set [50, 100::real]) \<and> (1::nat) < length [50, 100::real]
   \<and> [50, 100::real] ! 1 = Max (set [50, 100])
   \<and> near_high_mask [50, 100] ! 1
   \<and> (0::nat) < 1 \<and> at_high_pct_changes [50, 100] \<noteq> []
   \<and> \<not> isna (avg_pct_change_at_high [50, 100])"
proof -
  have a: "0 < Max (set [50, 100::real])" by simp
  have b: "(1::nat) < length [50, 100::real]" by simp
  have c: "[50, 100::real] ! 1 = Max (set [50, 100])" by simp
  have d: "(0::nat) < 1" by simp
  from max_bar_in_band [OF a b c] a b c d show ?thesis by blast
qed

section \<open>Facts about the projections\<close>

lemma length_future_values [simp]: "length (future_values v r k) = Suc k"
  by (induction k arbitrary: v) simp_all

lemma future_values_0 [simp]: "future_values v r k ! 0 = v"
  by (cases k) simp_all


lemma fmul_NaN_right [simp]: "fmul v NaN = NaN"
  by (cases v) simp_all

lemma fadd_NaN_right [simp]: "fadd v NaN = NaN"
  by (cases v) simp_all

lemma future_values_ne [simp]: "future_values v r k \<noteq> []"
  by (cases k) simp_all

lemma future_values_NaN_NaN: "future_values NaN NaN k = replicate (Suc k) NaN"
  by (induction k) simp_all

lemma future_values_NaN: "future_values v NaN k = v # replicate k NaN"
  by (cases k) (simp_all add: future_values_NaN_NaN)

lemma set_column_same_length:
  assumes "length vals = index_length (index fd)" "vals \<noteq> []"
  shows "set_column fd name vals = Inr (fd\<lparr>fcolumns := AList.update name vals (fcolumns fd)\<rparr>)"
proof -
  have "length vals \<noteq> 0" using assms(2) by simp
  then have "index_length (index fd) \<noteq> 0" using assms(1) by simp
  then show ?thesis using assms(1) by (simp add: set_column_def)
qed

lemma fill_features_ok:
  assumes "index_length (index fd) = Suc (nat (days - 1))"
    and "\<forall>f\<in>set fs. map_of lv f \<noteq> None"
  shows "\<exists>fd'. fill_features lv avg days fs fd = Inr fd' \<and> index fd' = index fd \<and>
           (\<forall>f. map_of (fcolumns fd') f =
              (if f \<in> set fs
               then map_option (\<lambda>v. future_values (Fin v) (fadd (Fin 1) avg) (nat (days - 1)))
                      (map_of lv f)
               else map_of (fcolumns fd) f))"
  using assms
proof (induction fs arbitrary: fd)
  case Nil
  then show ?case by simp
next
  case (Cons feature fs)
  let ?k = "nat (days - 1)"
  let ?r = "fadd (Fin 1) avg"
  from Cons.prems(2) obtain v where v: "map_of lv feature = Some v" by auto
  let ?vals = "future_values (Fin v) ?r ?k"
  let ?fd1 = "fd\<lparr>fcolumns := AList.update feature ?vals (fcolumns fd)\<rparr>"
  have sc: "set_column fd feature ?vals = Inr ?fd1"
    using Cons.prems(1) by (intro set_column_same_length) simp_all
  have i1: "index_length (index ?fd1) = Suc ?k" using Cons.prems(1) by simp
  have r1: "\<forall>f\<in>set fs. map_of lv f \<noteq> None" using Cons.prems(2) by simp
  from Cons.IH [OF i1 r1] obtain fd' where
    fd': "fill_features lv avg days fs ?fd1 = Inr fd'" "index fd' = index ?fd1"
    "\<forall>f. map_of (fcolumns fd') f =
              (if f \<in> set fs then map_option (\<lambda>v. future_values (Fin v) ?r ?k) (map_of lv f)
               else map_of (fcolumns ?fd1) f)"
    by blast
  have 1: "fill_features lv avg days (feature # fs) fd = Inr fd'"
    using v sc fd'(1) by simp
  have 2: "index fd' = index fd" using fd'(2) by simp
  have 3: "map_of (fcolumns fd') f =
              (if f \<in> set (feature # fs)
               then map_option (\<lambda>v. future_values (Fin v) ?r ?k) (map_of lv f)
               else map_of (fcolumns fd) f)" for f
    using fd'(3) v by (simp add: update_conv')
  from 1 2 3 show ?case by blast
qed

lemma map_of_last_values:
  "map_of (map (\<lambda>f. (f, g f)) fs) f = (if f \<in> set fs then Some (g f) else None)"
  by (induction fs) auto

lemma last_values_ok:
  assumes "list_all (\<lambda>f. map_of (columns data) f \<noteq> None) features" "timestamp data \<noteq> []"
  shows "last_values data features =
     Inr (map (\<lambda>f. (f, last (the (map_of (columns data) f)))) features)"
  using assms by (simp add: last_values_def)


lemma features_present:
  "set features \<subseteq> fst ` set (columns data) \<Longrightarrow>
   list_all (\<lambda>f. map_of (columns data) f \<noteq> None) features"
  by (auto simp: list_all_iff map_of_eq_None_iff)

lemma feature_column:
  "set features \<subseteq> fst ` set (columns data) \<Longrightarrow> f \<in> set features \<Longrightarrow>
   \<exists>c. map_of (columns data) f = Some c"
  by (metis map_of_eq_None_iff not_None_eq subsetD)

lemma project_ok:
  assumes "set features \<subseteq> fst ` set (columns data)" "timestamp data \<noteq> []"
    and "length idx = Suc (nat (days - 1))"
  shows "\<exists>fd. fill_features (map (\<lambda>f. (f, last (the (map_of (columns data) f)))) features)
             avg days features \<lparr>index = DatetimeIndex idx, fcolumns = []\<rparr> = Inr fd
          \<and> index fd = DatetimeIndex idx
          \<and> (\<forall>f\<in>set features. \<exists>c. map_of (columns data) f = Some c \<and>
               map_of (fcolumns fd) f =
                 Some (future_values (Fin (last c)) (fadd (Fin 1) avg) (nat (days - 1))))"
proof -
  let ?lv = "map (\<lambda>f. (f, last (the (map_of (columns data) f)))) features"
  let ?fd0 = "\<lparr>index = DatetimeIndex idx, fcolumns = []\<rparr>"
  have i: "index_length (index ?fd0) = Suc (nat (days - 1))" using assms(3) by simp
  have l: "\<forall>f\<in>set features. map_of ?lv f \<noteq> None"
    by (simp add: map_of_last_values)
  from fill_features_ok [OF i l, of avg] obtain fd where
    fd: "fill_features ?lv avg days features ?fd0 = Inr fd" "index fd = index ?fd0"
    "\<forall>f. map_of (fcolumns fd) f =
       (if f \<in> set features
        then map_option (\<lambda>v. future_values (Fin v) (fadd (Fin 1) avg) (nat (days - 1)))
               (map_of ?lv f)
        else map_of (fcolumns ?fd0) f)"
    by blast
  have "\<exists>c. map_of (columns data) f = Some c \<and>
          map_of (fcolumns fd) f =
            Some (future_values (Fin (last c)) (fadd (Fin 1) avg) (nat (days - 1)))"
    if f: "f \<in> set features" for f
  proof -
    from feature_column [OF assms(1) f] obtain c where c: "map_of (columns data) f = Some c"
      by blast
    then show ?thesis using fd(3) f by (simp add: map_of_last_values)
  qed
  then show ?thesis using fd(1,2) by auto
qed

lemma date_range_ok:
  "0 \<le> periods \<Longrightarrow>
   date_range start periods = Inr (map (\<lambda>i. start + int i * ms_per_day) [0..<nat periods])"
  by (simp add: date_range_def)

lemma get_halving_date_2024: "get_halving_date 2024 = Inr (Datetime 2024 5 12)"
  by (simp add: get_halving_date_def halving_dates_def)

lemma generate_future_features_ok:
  assumes "set features \<subseteq> fst ` set (columns data)" "timestamp data \<noteq> []"
    and "map_of (columns data) ''close'' = Some close" "1 \<le> days"
  shows "\<exists>fd. generate_future_features data features days = Inr fd
          \<and> index fd = DatetimeIndex
               (map (\<lambda>i. last (timestamp data) + ms_per_day + int i * ms_per_day) [0..<nat days])
          \<and> (\<forall>f\<in>set features. \<exists>c. map_of (columns data) f = Some c \<and>
               map_of (fcolumns fd) f =
                 Some (future_values (Fin (last c)) (fadd (Fin 1) (avg_pct_change_at_high close))
                         (nat (days - 1))))"
proof -
  let ?idx = "map (\<lambda>i. last (timestamp data) + ms_per_day + int i * ms_per_day) [0..<nat days]"
  have len: "length ?idx = Suc (nat (days - 1))" using assms(4) by simp
  have dr: "date_range (last (timestamp data) + ms_per_day) days = Inr ?idx"
    using assms(4) by (intro date_range_ok) simp
  have lv: "last_values data features =
      Inr (map (\<lambda>f. (f, last (the (map_of (columns data) f)))) features)"
    using features_present [OF assms(1)] assms(2) by (rule last_values_ok)
  have g: "generate_future_features data features days =
      fill_features (map (\<lambda>f. (f, last (the (map_of (columns data) f)))) features)
        (avg_pct_change_at_high close) days features \<lparr>index = DatetimeIndex ?idx, fcolumns = []\<rparr>"
    unfolding generate_future_features_def lv dr col_def assms(3) by simp
  show ?thesis unfolding g using project_ok [OF assms(1,2) len] .
qed

lemma generate_features_to_halving_unfold:
  assumes "set features \<subseteq> fst ` set (columns data)" "timestamp data \<noteq> []"
    and "map_of (columns data) ''close'' = Some close"
  shows "generate_features_to_halving data features =
     (case date_range (last (timestamp data) + ms_per_day)
             (timedelta_days (epoch_ms (Datetime 2024 5 12)) (last (timestamp data))) of
        Inl e \<Rightarrow> Inl e
      | Inr idx \<Rightarrow>
          fill_features (map (\<lambda>f. (f, last (the (map_of (columns data) f)))) features)
            (avg_pct_change_at_high close)
            (timedelta_days (epoch_ms (Datetime 2024 5 12)) (last (timestamp data))) features
            \<lparr>index = DatetimeIndex idx, fcolumns = []\<rparr>)"
proof -
  have lv: "last_values data features =
      Inr (map (\<lambda>f. (f, last (the (map_of (columns data) f)))) features)"
    using features_present [OF assms(1)] assms(2) by (rule last_values_ok)
  show ?thesis
    unfolding generate_features_to_halving_def lv get_halving_date_2024 col_def assms(3)
    using assms(2) by (simp add: Let_def)
qed

lemma generate_features_to_halving_ok:
  assumes "set features \<subseteq> fst ` set (columns data)" "timestamp data \<noteq> []"
    and "map_of (columns data) ''close'' = Some close"
    and "1 \<le> timedelta_days (epoch_ms (Datetime 2024 5 12)) (last (timestamp data))"
  shows "\<exists>fd. generate_features_to_halving data features = Inr fd
          \<and> index fd = DatetimeIndex
               (map (\<lambda>i. last (timestamp data) + ms_per_day + int i * ms_per_day)
                  [0..<nat (timedelta_days (epoch_ms (Datetime 2024 5 12)) (last (timestamp data)))])
          \<and> (\<forall>f\<in>set features. \<exists>c. map_of (columns data) f = Some c \<and>
               map_of (fcolumns fd) f =
                 Some (future_values (Fin (last c)) (fadd (Fin 1) (avg_pct_change_at_high close))
                   (nat (timedelta_days (epoch_ms (Datetime 2024 5 12)) (last (timestamp data)) - 1))))"
proof -
  let ?days = "timedelta_days (epoch_ms (Datetime 2024 5 12)) (last (timestamp data))"
  let ?idx = "map (\<lambda>i. last (timestamp data) + ms_per_day + int i * ms_per_day) [0..<nat ?days]"
  have len: "length ?idx = Suc (nat (?days - 1))" using assms(4) by simp
  have dr: "date_range (last (timestamp data) + ms_per_day) ?days = Inr ?idx"
    using assms(4) by (intro date_range_ok) simp
  show ?thesis
    unfolding generate_features_to_halving_unfold [OF assms(1,2,3)] dr
    using project_ok [OF assms(1,2) len] by simp
qed


lemma fill_features_empty_index:
  assumes "\<forall>f\<in>set fs. map_of lv f \<noteq> None" "days \<le> 1"
  shows "\<exists>fd. fill_features lv avg days fs \<lparr>index = DatetimeIndex [], fcolumns = []\<rparr> = Inr fd
          \<and> index fd = (if fs = [] then DatetimeIndex [] else RangeIndex 1)
          \<and> (\<forall>f. map_of (fcolumns fd) f =
                (if f \<in> set fs then map_option (\<lambda>v. [Fin v]) (map_of lv f) else None))"
proof (cases fs)
  case Nil
  then show ?thesis by simp
next
  case (Cons feature fs')
  have k: "nat (days - 1) = 0" using assms(2) by simp
  from assms(1) Cons obtain v where v: "map_of lv feature = Some v" by auto
  let ?fd0 = "\<lparr>index = DatetimeIndex [], fcolumns = []\<rparr>"
  let ?fd1 = "\<lparr>index = RangeIndex 1, fcolumns = [(feature, [Fin v])]\<rparr>"
  have sc: "set_column ?fd0 feature (future_values (Fin v) (fadd (Fin 1) avg) (nat (days - 1)))
      = Inr ?fd1"
    unfolding k by (simp add: set_column_def)
  have i1: "index_length (index ?fd1) = Suc (nat (days - 1))" unfolding k by simp
  have r1: "\<forall>f\<in>set fs'. map_of lv f \<noteq> None" using assms(1) Cons by simp
  from fill_features_ok [OF i1 r1, of avg] obtain fd where
    fd: "fill_features lv avg days fs' ?fd1 = Inr fd" "index fd = index ?fd1"
    "\<forall>f. map_of (fcolumns fd) f =
       (if f \<in> set fs'
        then map_option (\<lambda>v. future_values (Fin v) (fadd (Fin 1) avg) (nat (days - 1)))
               (map_of lv f)
        else map_of (fcolumns ?fd1) f)"
    by blast
  have 1: "fill_features lv avg days fs ?fd0 = Inr fd"
    unfolding Cons using v sc fd(1) by simp
  have 2: "index fd = (if fs = [] then DatetimeIndex [] else RangeIndex 1)"
    using fd(2) Cons by simp
  have 3: "map_of (fcolumns fd) f =
      (if f \<in> set fs then map_option (\<lambda>v. [Fin v]) (map_of lv f) else None)" for f
    using fd(3) v unfolding Cons k by simp
  from 1 2 3 show ?thesis by blast
qed



text \<open>
  Claim C2, as stated, fails: on the closes 100, 50 no percentage change survives the band
  restriction, and both projections return a table, its first row the last historical
  value and every later row NaN.
\<close>

theorem projection_outside_band_counterexample:
  "at_high_pct_changes [100, 50] = []
   \<and> generate_future_features
        \<lparr>timestamp = [0, 86400000], columns = [(''close'', [100, 50])]\<rparr> [''close''] 3
      = Inr \<lparr>index = DatetimeIndex [172800000, 259200000, 345600000],
             fcolumns = [(''close'', [Fin 50, NaN, NaN])]\<rparr>
   \<and> generate_features_to_halving
        \<lparr>timestamp = [1715126400000, 1715212800000], columns = [(''close'', [100, 50])]\<rparr>
        [''close'']
      = Inr \<lparr>index = DatetimeIndex [1715299200000, 1715385600000, 1715472000000],
             fcolumns = [(''close'', [Fin 50, NaN, NaN])]\<rparr>"
  by code_simp

text \<open>
  Claim C2, amended. When no percentage change survives the band restriction, neither
  projection fails: \<open>generate_future_features\<close> (for \<open>days\<close> of at least 1) and
  \<open>generate_features_to_halving\<close> (when the reference date is at least a day ahead)
  return a table in which each feature's first value is its last historical value and
  every later value is NaN.
\<close>

theorem projection_outside_band:
  assumes "wf_frame data" "timestamp data \<noteq> []"
    and "set features \<subseteq> fst ` set (columns data)" "distinct features"
    and "map_of (columns data) ''close'' = Some close"
    and "at_high_pct_changes close = []"
  shows "(1 \<le> days \<longrightarrow>
           (\<exists>fd. generate_future_features data features days = Inr fd
              \<and> (\<forall>f\<in>set features. \<exists>c. map_of (columns data) f = Some c
                    \<and> map_of (fcolumns fd) f
                        = Some (Fin (last c) # replicate (nat (days - 1)) NaN))))
       \<and> (1 \<le> timedelta_days (epoch_ms (Datetime 2024 5 12)) (last (timestamp data)) \<longrightarrow>
           (\<exists>fd. generate_features_to_halving data features = Inr fd
              \<and> (\<forall>f\<in>set features. \<exists>c. map_of (columns data) f = Some c
                    \<and> map_of (fcolumns fd) f
                        = Some (Fin (last c) # replicate
                            (nat (timedelta_days (epoch_ms (Datetime 2024 5 12))
                                    (last (timestamp data)) - 1)) NaN))))"
proof -
  have avg: "fadd (Fin 1) (avg_pct_change_at_high close) = NaN"
    unfolding avg_pct_change_at_high_def assms(6) by (simp add: fmean_def)
  show ?thesis
  proof (intro conjI impI)
    assume "1 \<le> days"
    from generate_future_features_ok [OF assms(3,2,5) this]
    show "\<exists>fd. generate_future_features data features days = Inr fd
              \<and> (\<forall>f\<in>set features. \<exists>c. map_of (columns data) f = Some c
                    \<and> map_of (fcolumns fd) f
                        = Some (Fin (last c) # replicate (nat (days - 1)) NaN))"
      unfolding avg future_values_NaN by blast
  next
    assume "1 \<le> timedelta_days (epoch_ms (Datetime 2024 5 12)) (last (timestamp data))"
    from generate_features_to_halving_ok [OF assms(3,2,5) this]
    show "\<exists>fd. generate_features_to_halving data features = Inr fd
              \<and> (\<forall>f\<in>set features. \<exists>c. map_of (columns data) f = Some c
                    \<and> map_of (fcolumns fd) f
                        = Some (Fin (last c) # replicate
                            (nat (timedelta_days (epoch_ms (Datetime 2024 5 12))
                                    (last (timestamp data)) - 1)) NaN))"
      unfolding avg future_values_NaN by blast
  qed
qed

theorem projection_outside_band_witness:
  "wf_frame \<lparr>timestamp = [0, 86400000], columns = [(''close'', [100, 50])]\<rparr>
   \<and> timestamp \<lparr>timestamp = [0, 86400000], columns = [(''close'', [100, 50])]\<rparr> \<noteq> []
   \<and> set [''close''] \<subseteq>
       fst ` set (columns \<lparr>timestamp = [0, 86400000], columns = [(''close'', [100, 50])]\<rparr>)
   \<and> distinct [''close'']
   \<and> map_of (columns \<lparr>timestamp = [0, 86400000], columns = [(''close'', [100, 50])]\<rparr>)
        ''close'' = Some [100, 50]
   \<and> at_high_pct_changes [100, 50] = []
   \<and> (1::int) \<le> 3
   \<and> (\<exists>fd. generate_future_features
              \<lparr>timestamp = [0, 86400000], columns = [(''close'', [100, 50])]\<rparr> [''close''] 3
            = Inr fd
         \<and> map_of (fcolumns fd) ''close'' = Some [Fin 50, NaN, NaN])
   \<and> 1 \<le> timedelta_days (epoch_ms (Datetime 2024 5 12)) 86400000
   \<and> (\<exists>fd. generate_features_to_halving
              \<lparr>timestamp = [0, 86400000], columns = [(''close'', [100, 50])]\<rparr> [''close'']
            = Inr fd
         \<and> map_of (fcolumns fd) ''close''
             = Some (Fin 50 # replicate
                  (nat (timedelta_days (epoch_ms (Datetime 2024 5 12)) 86400000 - 1)) NaN))"
proof -
  let ?d = "\<lparr>timestamp = [0, 86400000], columns = [(''close'', [100, 50])]\<rparr>"
  have h1: "wf_frame ?d" by (simp add: wf_frame_def)
  have h2: "timestamp ?d \<noteq> []" by simp
  have h3: "set [''close''] \<subseteq> fst ` set (columns ?d)" by simp
  have h4: "distinct [''close'']" by simp
  have h5: "map_of (columns ?d) ''close'' = Some [100, 50]" by simp
  have h6: "at_high_pct_changes [100, 50] = []" by code_simp
  have h7: "(1::int) \<le> 3" by simp
  have h8: "1 \<le> timedelta_days (epoch_ms (Datetime 2024 5 12)) 86400000" by code_simp
  have l: "last (timestamp ?d) = 86400000" by simp
  note t = projection_outside_band [OF h1 h2 h3 h4 h5 h6, of 3, unfolded l]
  from t h7 obtain fd where
    a: "generate_future_features ?d [''close''] 3 = Inr fd"
    "\<forall>f\<in>set [''close'']. \<exists>c. map_of (columns ?d) f = Some c
        \<and> map_of (fcolumns fd) f = Some (Fin (last c) # replicate (nat (3 - 1)) NaN)"
    by blast
  have a2: "map_of (fcolumns fd) ''close'' = Some [Fin 50, NaN, NaN]"
    using a(2) by (simp add: numeral_2_eq_2)
  from t h8 obtain fd' where
    b: "generate_features_to_halving ?d [''close''] = Inr fd'"
    "\<forall>f\<in>set [''close'']. \<exists>c. map_of (columns ?d) f = Some c
        \<and> map_of (fcolumns fd') f = Some (Fin (last c) # replicate
             (nat (timedelta_days (epoch_ms (Datetime 2024 5 12)) 86400000 - 1)) NaN)"
    by blast
  have b2: "map_of (fcolumns fd') ''close'' = Some (Fin 50 # replicate
             (nat (timedelta_days (epoch_ms (Datetime 2024 5 12)) 86400000 - 1)) NaN)"
    using b(2) by simp
  from h1 h2 h3 h4 h5 h6 h7 h8 a(1) a2 b(1) b2 show ?thesis by blast
qed

text \<open>
  Claim C6, as stated, fails: with the last historical timestamp one day past the 2024
  reference date the number of days is -1, and the construction of the date range
  rejects it.
\<close>

theorem generate_features_to_halving_past_reference_counterexample:
  "epoch_ms (Datetime 2024 5 12) \<le> last [0, 1715558400000]
   \<and> generate_features_to_halving
        \<lparr>timestamp = [0, 1715558400000], columns = [(''close'', [100, 110])]\<rparr> [''close'']
      = Inl NegativePeriods"
  by code_simp

text \<open>
  Claim C6, amended. When the last historical timestamp is at or past the 2024 reference
  date, the number of days computed by \<open>generate_features_to_halving\<close> is not positive.
  When the timestamp is the reference date itself (0 days) the function returns without
  error, and the table is not empty unless no feature is requested: it has one row,
  indexed 0, holding the last historical value of each feature. When the timestamp is
  later (a negative number of days) the function fails where it builds the date range.
\<close>

theorem generate_features_to_halving_past_reference:
  assumes "wf_frame data" "timestamp data \<noteq> []"
    and "set features \<subseteq> fst ` set (columns data)" "distinct features"
    and "map_of (columns data) ''close'' = Some close"
    and "epoch_ms (Datetime 2024 5 12) \<le> last (timestamp data)"
  shows "timedelta_days (epoch_ms (Datetime 2024 5 12)) (last (timestamp data)) \<le> 0
       \<and> (last (timestamp data) = epoch_ms (Datetime 2024 5 12) \<longrightarrow>
            (\<exists>fd. generate_features_to_halving data features = Inr fd
               \<and> index fd = (if features = [] then DatetimeIndex [] else RangeIndex 1)
               \<and> (\<forall>f\<in>set features. \<exists>c. map_of (columns data) f = Some c
                     \<and> map_of (fcolumns fd) f = Some [Fin (last c)])))
       \<and> (epoch_ms (Datetime 2024 5 12) < last (timestamp data) \<longrightarrow>
            generate_features_to_halving data features = Inl NegativePeriods)"
proof (intro conjI impI)
  let ?h = "epoch_ms (Datetime 2024 5 12)"
  let ?last = "last (timestamp data)"
  let ?lv = "map (\<lambda>f. (f, last (the (map_of (columns data) f)))) features"
  have pos: "0 < ms_per_day" by (simp add: ms_per_day_def)
  have "?h - ?last \<le> 0" using assms(6) by simp
  then have "(?h - ?last) div ms_per_day \<le> 0"
    using pos by (simp add: div_nonpos_pos_le0)
  then show "timedelta_days ?h ?last \<le> 0" by (simp add: timedelta_days_def)
  {
    assume eq: "?last = ?h"
    have d0: "timedelta_days ?h ?last = 0" unfolding eq by (simp add: timedelta_days_def)
    have l: "\<forall>f\<in>set features. map_of ?lv f \<noteq> None"
      by (simp add: map_of_last_values)
    from fill_features_empty_index [OF l, of 0 "avg_pct_change_at_high close"] obtain fd where
      fd: "fill_features ?lv (avg_pct_change_at_high close) 0 features
             \<lparr>index = DatetimeIndex [], fcolumns = []\<rparr> = Inr fd"
      "index fd = (if features = [] then DatetimeIndex [] else RangeIndex 1)"
      "\<forall>f. map_of (fcolumns fd) f =
          (if f \<in> set features then map_option (\<lambda>v. [Fin v]) (map_of ?lv f) else None)"
      by auto
    have g: "generate_features_to_halving data features = Inr fd"
      unfolding generate_features_to_halving_unfold [OF assms(3,2,5)] d0
      using fd(1) by (simp add: date_range_def)
    have c: "\<exists>c. map_of (columns data) f = Some c \<and> map_of (fcolumns fd) f = Some [Fin (last c)]"
      if f: "f \<in> set features" for f
    proof -
      from feature_column [OF assms(3) f] obtain c where c: "map_of (columns data) f = Some c"
        by blast
      then show ?thesis using fd(3) f by (simp add: map_of_last_values)
    qed
    from g fd(2) c
    show "\<exists>fd. generate_features_to_halving data features = Inr fd
               \<and> index fd = (if features = [] then DatetimeIndex [] else RangeIndex 1)
               \<and> (\<forall>f\<in>set features. \<exists>c. map_of (columns data) f = Some c
                     \<and> map_of (fcolumns fd) f = Some [Fin (last c)])"
      by blast
  }
  {
    assume "?h < ?last"
    then have "?h - ?last < 0" by simp
    then have "(?h - ?last) div ms_per_day < 0"
      using pos by (simp add: pos_imp_zdiv_neg_iff)
    then have "timedelta_days ?h ?last < 0" by (simp add: timedelta_days_def)
    then show "generate_features_to_halving data features = Inl NegativePeriods"
      unfolding generate_features_to_halving_unfold [OF assms(3,2,5)]
      by (simp add: date_range_def)
  }
qed

theorem generate_features_to_halving_past_reference_witness:
  "wf_frame \<lparr>timestamp = [1715385600000, 1715472000000], columns = [(''close'', [100, 110])]\<rparr>
   \<and> set [''close''] \<subseteq> fst ` set (columns
        \<lparr>timestamp = [1715385600000, 1715472000000], columns = [(''close'', [100, 110])]\<rparr>)
   \<and> distinct [''close'']
   \<and> last [1715385600000, 1715472000000] = epoch_ms (Datetime 2024 5 12)
   \<and> timedelta_days (epoch_ms (Datetime 2024 5 12)) 1715472000000 \<le> 0
   \<and> (\<exists>fd. generate_features_to_halving
              \<lparr>timestamp = [1715385600000, 1715472000000], columns = [(''close'', [100, 110])]\<rparr>
              [''close''] = Inr fd
         \<and> index fd = RangeIndex 1
         \<and> map_of (fcolumns fd) ''close'' = Some [Fin 110])
   \<and> wf_frame \<lparr>timestamp = [0, 1715558400000], columns = [(''close'', [100, 110])]\<rparr>
   \<and> epoch_ms (Datetime 2024 5 12) < last [0, 1715558400000]
   \<and> generate_features_to_halving
        \<lparr>timestamp = [0, 1715558400000], columns = [(''close'', [100, 110])]\<rparr> [''close'']
      = Inl NegativePeriods"
proof -
  let ?a = "\<lparr>timestamp = [1715385600000, 1715472000000], columns = [(''close'', [100, 110])]\<rparr>"
  let ?b = "\<lparr>timestamp = [0, 1715558400000], columns = [(''close'', [100, 110])]\<rparr>"
  have e: "epoch_ms (Datetime 2024 5 12) = 1715472000000" by code_simp
  have a1: "wf_frame ?a" by (simp add: wf_frame_def)
  have a2: "timestamp ?a \<noteq> []" by simp
  have a3: "set [''close''] \<subseteq> fst ` set (columns ?a)" by simp
  have a4: "distinct [''close'']" by simp
  have a5: "map_of (columns ?a) ''close'' = Some [100, 110]" by simp
  have a6: "epoch_ms (Datetime 2024 5 12) \<le> last (timestamp ?a)" unfolding e by simp
  have a7: "last (timestamp ?a) = epoch_ms (Datetime 2024 5 12)" unfolding e by simp
  have a7': "last [1715385600000, 1715472000000] = epoch_ms (Datetime 2024 5 12)"
    unfolding e by simp
  note ta = generate_features_to_halving_past_reference [OF a1 a2 a3 a4 a5 a6]
  from ta have a8: "timedelta_days (epoch_ms (Datetime 2024 5 12)) 1715472000000 \<le> 0"
    by simp
  from ta a7 obtain fd where
    fd: "generate_features_to_halving ?a [''close''] = Inr fd"
    "index fd = (if [''close''] = [] then DatetimeIndex [] else RangeIndex 1)"
    "\<forall>f\<in>set [''close'']. \<exists>c. map_of (columns ?a) f = Some c
        \<and> map_of (fcolumns fd) f = Some [Fin (last c)]"
    by blast
  have f2: "index fd = RangeIndex 1" using fd(2) by simp
  have f3: "map_of (fcolumns fd) ''close'' = Some [Fin 110]" using fd(3) by simp
  have b1: "wf_frame ?b" by (simp add: wf_frame_def)
  have b2: "timestamp ?b \<noteq> []" by simp
  have b3: "set [''close''] \<subseteq> fst ` set (columns ?b)" by simp
  have b5: "map_of (columns ?b) ''close'' = Some [100, 110]" by simp
  have b6: "epoch_ms (Datetime 2024 5 12) \<le> last (timestamp ?b)" unfolding e by simp
  have b7: "epoch_ms (Datetime 2024 5 12) < last (timestamp ?b)" unfolding e by simp
  have b7': "epoch_ms (Datetime 2024 5 12) < last [0, 1715558400000]" unfolding e by simp
  from generate_features_to_halving_past_reference [OF b1 b2 b3 a4 b5 b6] b7
  have b8: "generate_features_to_halving ?b [''close''] = Inl NegativePeriods" by blast
  from a1 a3 a4 a7' a8 fd(1) f2 f3 b1 b7' b8 show ?thesis by blast
qed

section \<open>Facts about the headline trajectory\<close>

lemma length_price_path [simp]: "length (price_path v inc k) = Suc k"
  by (induction k arbitrary: v) simp_all

lemma price_path_0 [simp]: "price_path v inc k ! 0 = v"
  by (cases k) simp_all

lemma foldl_fadd_Fin: "foldl fadd (Fin a) (map Fin xs) = Fin (a + sum_list xs)"
  by (induction xs arbitrary: a) (simp_all add: add.assoc)

lemma fsum_map_Fin: "fsum (map Fin xs) = Fin (sum_list xs)"
  by (simp add: fsum_def foldl_fadd_Fin)

lemma fmean_map_Fin:
  "fmean (map Fin xs) = (if xs = [] then NaN else Fin (sum_list xs / real (length xs)))"
proof -
  have "filter (\<lambda>x. \<not> isna x) (map Fin xs) = map Fin xs"
    by (simp add: filter_id_conv isna_def)
  then show ?thesis
    by (simp add: fmean_def fsum_map_Fin)
qed

lemma near_ath_rows_eq:
  "near_ath_rows close =
     filter (\<lambda>i. Max (set close) - Max (set close) * (5 / 100) \<le> close ! i) [0..<length close]"
proof -
  have "filter (\<lambda>i. fge (Fin (close ! i))
            (fsub (series_max close) (fmul (series_max close) (Fin (5 / 100)))))
          [0..<length close]
      = filter (\<lambda>i. Max (set close) - Max (set close) * (5 / 100) \<le> close ! i)
          [0..<length close]"
  proof (rule filter_cong [OF refl])
    fix i assume "i \<in> set [0..<length close]"
    then have "close \<noteq> []" by auto
    then show "fge (Fin (close ! i))
            (fsub (series_max close) (fmul (series_max close) (Fin (5 / 100))))
        = (Max (set close) - Max (set close) * (5 / 100) \<le> close ! i)"
      by (simp add: series_max_def fsub_def not_less)
  qed
  then show ?thesis by (simp add: near_ath_rows_def)
qed

lemma wf_frame_length:
  "wf_frame d \<Longrightarrow> map_of (columns d) name = Some c \<Longrightarrow> length c = length (timestamp d)"
  by (auto simp: wf_frame_def list_all_iff dest: map_of_SomeD)

lemma prepare_ok:
  assumes "map_of (columns d) ''high'' = Some high" "map_of (columns d) ''low'' = Some low"
  shows "prepare d =
         Inr (d\<lparr>columns :=
                 AList.update ''days_since_halving''
                   (map (\<lambda>x. real_of_int (days_since_last_halving x)) (timestamp d))
                   (AList.update ''volatility'' (map2 (-) high low) (columns d))\<rparr>)"
  using assms by (simp add: prepare_def)


lemma band_volatility:
  assumes "length high = length close" "length low = length close"
  shows "map (\<lambda>i. Fin (map2 (-) high low ! i)) (near_ath_rows close)
       = map Fin (map (\<lambda>i. high ! i - low ! i)
           (filter (\<lambda>i. Max (set close) - Max (set close) * (5 / 100) \<le> close ! i)
              [0..<length close]))"
proof -
  have "map (\<lambda>i. Fin (map2 (-) high low ! i)) (near_ath_rows close)
      = map (\<lambda>i. Fin (high ! i - low ! i)) (near_ath_rows close)"
  proof (rule map_cong [OF refl])
    fix i assume "i \<in> set (near_ath_rows close)"
    then have "i < length close" by (simp add: near_ath_rows_eq)
    then show "Fin (map2 (-) high low ! i) = Fin (high ! i - low ! i)"
      using assms by simp
  qed
  then show ?thesis by (simp add: near_ath_rows_eq comp_def)
qed

lemma max_row_in_band:
  fixes close :: "real list"
  assumes "close \<noteq> []" "0 \<le> Max (set close)"
  shows "filter (\<lambda>i. Max (set close) - Max (set close) * (5 / 100) \<le> close ! i)
           [0..<length close] \<noteq> []"
proof -
  have "Max (set close) \<in> set close" using assms(1) by (intro Max_in) simp_all
  then obtain i where i: "i < length close" "close ! i = Max (set close)"
    by (auto simp: in_set_conv_nth)
  have "Max (set close) - Max (set close) * (5 / 100) \<le> close ! i"
    using i(2) assms(2) by simp
  then have "i \<in> set (filter (\<lambda>i. Max (set close) - Max (set close) * (5 / 100) \<le> close ! i)
           [0..<length close])"
    using i(1) by simp
  then show ?thesis by (metis empty_iff empty_set)
qed

subsection \<open>Rounding\<close>

lemma pow2_nonneg_exp: "0 \<le> e \<Longrightarrow> pow2 e = 2 ^ nat e"
  by (simp add: pow2_def)

lemma pow2_nonpos_exp: "e \<le> 0 \<Longrightarrow> pow2 e = 1 / 2 ^ nat (- e)"
  by (cases "e = 0") (simp_all add: pow2_def)

lemma ilog2_bounds:
  assumes "0 < x"
  shows "pow2 (ilog2 x) \<le> x \<and> x < pow2 (ilog2 x + 1)"
proof (cases "1 \<le> x")
  case True
  define n where "n = \<lfloor>x\<rfloor>"
  have n: "0 < n" using True by (simp add: n_def)
  from bitlen_bounds [OF n]
  have b: "2 ^ nat (bitlen n - 1) \<le> n" "n < 2 ^ nat (bitlen n)" by simp_all
  have b1: "1 \<le> bitlen n" using n by (simp add: bitlen_alt_def)
  have i: "ilog2 x = bitlen n - 1" using True by (simp add: ilog2_def n_def)
  have "(2::real) ^ nat (bitlen n - 1) \<le> real_of_int n"
    using b(1) by simp
  also have "real_of_int n \<le> x" by (simp add: n_def)
  finally have lo: "2 ^ nat (bitlen n - 1) \<le> x" .
  have "\<lfloor>x\<rfloor> < 2 ^ nat (bitlen n)" using b(2) unfolding n_def .
  then have "x < real_of_int (2 ^ nat (bitlen n))" by (simp only: floor_less_iff)
  then have hi: "x < 2 ^ nat (bitlen n)" by simp
  show ?thesis
    unfolding i using lo hi b1 by (simp add: pow2_nonneg_exp)
next
  case False
  define y where "y = 1 / x"
  define c where "c = \<lceil>y\<rceil>"
  have x1: "x < 1" using False by simp
  have y1: "1 < y" using assms x1 by (simp add: y_def)
  have xy: "x = 1 / y" by (simp add: y_def)
  have c2: "0 < c - 1" using y1 by (simp add: c_def less_ceiling_iff)
  define b where "b = bitlen (c - 1)"
  from bitlen_bounds [OF c2]
  have bb: "2 ^ nat (b - 1) \<le> c - 1" "c - 1 < 2 ^ nat b" by (simp_all add: b_def)
  have b1: "1 \<le> b" using c2 by (simp add: b_def bitlen_alt_def)
  have i: "ilog2 x = - b" using False by (simp add: ilog2_def b_def c_def y_def)
  have "c \<le> 2 ^ nat b" using bb(2) by simp
  then have "real_of_int c \<le> 2 ^ nat b" by simp
  moreover have "y \<le> real_of_int c" by (simp add: c_def)
  ultimately have yhi: "y \<le> 2 ^ nat b" by (rule order_trans [rotated])
  have "2 ^ nat (b - 1) < \<lceil>y\<rceil>" using bb(1) unfolding c_def by linarith
  then have "real_of_int (2 ^ nat (b - 1)) < y" by (simp only: less_ceiling_iff)
  then have ylo: "2 ^ nat (b - 1) < y" by simp
  have lo: "1 / 2 ^ nat b \<le> x"
    unfolding xy using yhi y1 by (simp add: field_simps)
  have hi: "x < 1 / 2 ^ nat (b - 1)"
    unfolding xy using ylo y1 by (simp add: field_simps)
  have e1: "pow2 (- b) = 1 / 2 ^ nat b" using b1 by (simp add: pow2_nonpos_exp)
  have e2: "pow2 (- b + 1) = 1 / 2 ^ nat (b - 1)"
    using b1 by (simp add: pow2_nonpos_exp)
  show ?thesis unfolding i e1 e2 using lo hi by simp
qed

lemma bitlen_One [simp]: "bitlen 1 = 1"
  by (subst compute_bitlen) simp

lemma bitlen_Bit0 [simp]: "bitlen (numeral (Num.Bit0 n)) = bitlen (numeral n) + 1"
  by (subst compute_bitlen) simp

lemma bitlen_Bit1 [simp]: "bitlen (numeral (Num.Bit1 n)) = bitlen (numeral n) + 1"
  by (subst compute_bitlen) simp

lemmas double_eval = to_double_def ilog2_def round_half_even_def pow2_def Let_def
  rounded_def float_add_def float_sub_def float_mul_def fsub_def

lemma to_double_tenth: "to_double (1 / 10) = Fin (3602879701896397 / 2 ^ 55)"
  by (simp add: double_eval)

lemma to_double_not_NaN: "to_double x \<noteq> NaN"
  by (simp add: to_double_def Let_def)

lemma float_mul_Fin_not_NaN: "float_mul (Fin a) (Fin b) \<noteq> NaN"
  by (simp add: float_mul_def rounded_def to_double_not_NaN)

subsection \<open>The trajectory\<close>

lemma price_path_step:
  "i < k \<Longrightarrow> price_path v inc k ! Suc i = float_add (price_path v inc k ! i) inc"
proof (induction k arbitrary: v i)
  case 0
  then show ?case by simp
next
  case (Suc k)
  show ?case
  proof (cases i)
    case 0
    then show ?thesis by simp
  next
    case (Suc j)
    then have "j < k" using Suc.prems by simp
    from Suc.IH [OF this, of "float_add v inc"] show ?thesis
      using Suc by simp
  qed
qed

lemma take_2_price_path:
  "0 < k \<Longrightarrow> take 2 (price_path v inc k) = [v, float_add v inc]"
proof -
  assume "0 < k"
  then obtain j where j: "k = Suc j" by (cases k) simp_all
  have "take (Suc (Suc 0)) (price_path v inc (Suc j)) = [v, float_add v inc]"
    by (cases j) simp_all
  then show ?thesis using j by (simp add: numeral_2_eq_2)
qed

lemma headline_prepared:
  assumes "wf_frame d" "timestamp d \<noteq> []"
    and "map_of (columns d) ''high'' = Some high" "map_of (columns d) ''low'' = Some low"
    and "map_of (columns d) ''close'' = Some close"
  shows "estimate_future_prices d =
     Inr \<lparr>future_dates = map (\<lambda>i. last (timestamp d) + int i * ms_per_day) [1..<365 * 7 + 1],
          ath_average_volatility =
            fmean (map (\<lambda>i. Fin (map2 (-) high low ! i)) (near_ath_rows close)),
          increment =
            float_mul (fmean (map (\<lambda>i. Fin (map2 (-) high low ! i)) (near_ath_rows close)))
              (to_double (1 / 10)),
          estimated_future_prices =
            price_path (Fin (Max (set close)))
              (float_mul (fmean (map (\<lambda>i. Fin (map2 (-) high low ! i)) (near_ath_rows close)))
                 (to_double (1 / 10))) (365 * 7 - 1),
          prices_index = map (\<lambda>i. last (timestamp d) + int i * ms_per_day) [0..<nat (365 * 7)],
          last_price = last (price_path (Fin (Max (set close)))
              (float_mul (fmean (map (\<lambda>i. Fin (map2 (-) high low ! i)) (near_ath_rows close)))
                 (to_double (1 / 10))) (365 * 7 - 1))\<rparr>"
proof -
  have "length close = length (timestamp d)"
    using assms(1,5) by (rule wf_frame_length)
  then have ne: "close \<noteq> []" using assms(2) by auto
  show ?thesis
    unfolding estimate_future_prices_def prepare_ok [OF assms(3,4)]
    using assms(2,5) ne
    by (simp add: headline_def col_def update_conv' date_range_def series_max_def Let_def)
qed

lemma band_example:
  "filter (\<lambda>i. Max (set [2, 3::real]) - Max (set [2, 3::real]) * (5 / 100) \<le> [2, 3] ! i)
     [0..<length [2, 3::real]] = [1]"
  by code_simp

lemma increment_example:
  "float_mul (fmean (map Fin (map (\<lambda>i. [3, 4::real] ! i - [1, 1] ! i) [1])))
     (to_double (1 / 10)) = Fin (1351079888211149 / 2 ^ 52)"
proof -
  have "fmean (map Fin (map (\<lambda>i. [3, 4::real] ! i - [1, 1] ! i) [1])) = Fin 3"
    by (simp add: fmean_def fsum_def isna_def)
  then show ?thesis by (simp add: to_double_tenth) (simp add: double_eval)
qed

lemma increment_fact:
  "float_mul (fmean [Fin 3]) (to_double (1 / 10)) = Fin (1351079888211149 / 2 ^ 52)"
proof -
  have "fmean [Fin 3] = Fin 3"
    by (simp add: fmean_def fsum_def isna_def)
  then show ?thesis by (simp add: to_double_tenth) (simp add: double_eval)
qed

lemma first_step_example:
  "float_add (Fin 3) (Fin (1351079888211149 / 2 ^ 52)) = Fin (3715469692580659 / 2 ^ 50)"
  by (simp add: double_eval)

text \<open>
  Claim C5, as stated, fails: the differences of consecutive values are not the
  increment. With one bar in the band, of volatility 3, and an all-time high of 3, the
  increment is the double 1351079888211149 / 2^52 (0.30000000000000004) and the second
  value is 3715469692580659 / 2^50 (3.3000000000000003, the sum rounded to a double). The
  difference of the first two values is 337769972052787 / 2^50 (0.2999999999999998),
  whether it is taken exactly or in double precision, and that is not the increment.
\<close>

theorem headline_difference_counterexample:
  "headline_increment \<lparr>timestamp = [0, 86400000],
      columns = [(''high'', [3, 4]), (''low'', [1, 1]), (''close'', [2, 3])]\<rparr>
     = Inr (Fin (1351079888211149 / 2 ^ 52))
   \<and> headline_prices 2 \<lparr>timestamp = [0, 86400000],
      columns = [(''high'', [3, 4]), (''low'', [1, 1]), (''close'', [2, 3])]\<rparr>
     = Inr [Fin 3, Fin (3715469692580659 / 2 ^ 50)]
   \<and> float_sub (Fin (3715469692580659 / 2 ^ 50)) (Fin 3) = Fin (337769972052787 / 2 ^ 50)
   \<and> fsub (Fin (3715469692580659 / 2 ^ 50)) (Fin 3) = Fin (337769972052787 / 2 ^ 50)
   \<and> Fin (337769972052787 / 2 ^ 50) \<noteq> Fin (1351079888211149 / 2 ^ 52)"
proof -
  let ?d = "\<lparr>timestamp = [0, 86400000],
      columns = [(''high'', [3, 4]), (''low'', [1, 1]), (''close'', [2, 3::real])]\<rparr>"
  have h1: "wf_frame ?d" by (simp add: wf_frame_def)
  have h2: "timestamp ?d \<noteq> []" by simp
  have h3: "map_of (columns ?d) ''high'' = Some [3, 4]" by simp
  have h4: "map_of (columns ?d) ''low'' = Some [1, 1]" by simp
  have h5: "map_of (columns ?d) ''close'' = Some [2, 3]" by simp
  have l: "length [3, 4::real] = length [2, 3::real]" "length [1, 1::real] = length [2, 3::real]"
    by simp_all
  have m: "Max (set [2, 3::real]) = 3" by simp
  note h = headline_prepared [OF h1 h2 h3 h4 h5,
      unfolded band_volatility [OF l] band_example m]
  have a: "headline_increment ?d = Inr (Fin (1351079888211149 / 2 ^ 52))"
    unfolding headline_increment_def h by (simp add: increment_fact)
  have "headline_prices 2 ?d
      = Inr (take 2 (price_path (Fin 3) (Fin (1351079888211149 / 2 ^ 52)) (365 * 7 - 1)))"
    unfolding headline_prices_def h by (simp add: increment_fact)
  also have "take 2 (price_path (Fin 3) (Fin (1351079888211149 / 2 ^ 52)) (365 * 7 - 1))
      = [Fin 3, float_add (Fin 3) (Fin (1351079888211149 / 2 ^ 52))]"
    by (rule take_2_price_path) simp
  finally have b: "headline_prices 2 ?d = Inr [Fin 3, Fin (3715469692580659 / 2 ^ 50)]"
    unfolding first_step_example .
  have c: "float_sub (Fin (3715469692580659 / 2 ^ 50)) (Fin 3) = Fin (337769972052787 / 2 ^ 50)"
    by (simp add: double_eval)
  have e: "fsub (Fin (3715469692580659 / 2 ^ 50)) (Fin 3) = Fin (337769972052787 / 2 ^ 50)"
    by (simp add: fsub_def)
  have f: "Fin (337769972052787 / 2 ^ 50) \<noteq> Fin (1351079888211149 / 2 ^ 52)"
    by simp
  from a b c e f show ?thesis by blast
qed

text \<open>
  Claim C5, amended. For every non-empty table with high, low and close columns, the
  headline trajectory has exactly 2555 daily values (one per day from the last historical
  timestamp on), its first value is the all-time-high close, and every later value is the
  value before it plus the same increment, the sum rounded to a double: the growth is
  arithmetic, not compounding, and the differences of consecutive values are the increment
  up to that rounding only. The increment is the average volatility (high - low) over
  the bars whose close is at least 95% of the all-time high, times the double nearest to
  0.1, rounded to a double. It is not NaN whenever the all-time high is not negative.
\<close>

theorem headline_recurrence:
  assumes "wf_frame d" "timestamp d \<noteq> []"
    and "map_of (columns d) ''high'' = Some high" "map_of (columns d) ''low'' = Some low"
    and "map_of (columns d) ''close'' = Some close"
  shows "\<exists>p. estimate_future_prices d = Inr p
      \<and> length (estimated_future_prices p) = 2555
      \<and> prices_index p = map (\<lambda>i. last (timestamp d) + int i * ms_per_day) [0..<2555]
      \<and> estimated_future_prices p ! 0 = Fin (Max (set close))
      \<and> ath_average_volatility p =
          fmean (map Fin (map (\<lambda>i. high ! i - low ! i)
                  (filter (\<lambda>i. Max (set close) - Max (set close) * (5 / 100) \<le> close ! i)
                     [0..<length close])))
      \<and> increment p = float_mul (ath_average_volatility p) (to_double (1 / 10))
      \<and> (\<forall>i. i + 1 < 2555 \<longrightarrow>
            estimated_future_prices p ! (i + 1)
              = float_add (estimated_future_prices p ! i) (increment p))
      \<and> (0 \<le> Max (set close) \<longrightarrow> increment p \<noteq> NaN)"
proof -
  let ?band = "filter (\<lambda>i. Max (set close) - Max (set close) * (5 / 100) \<le> close ! i)
                     [0..<length close]"
  let ?vols = "map (\<lambda>i. high ! i - low ! i) ?band"
  let ?inc = "float_mul (fmean (map Fin ?vols)) (to_double (1 / 10))"
  let ?path = "price_path (Fin (Max (set close))) ?inc (365 * 7 - 1)"
  have lc: "length close = length (timestamp d)" using assms(1,5) by (rule wf_frame_length)
  have lh: "length high = length close"
    using wf_frame_length [OF assms(1,3)] lc by simp
  have ll: "length low = length close"
    using wf_frame_length [OF assms(1,4)] lc by simp
  have ne: "close \<noteq> []" using lc assms(2) by auto
  note h = headline_prepared [OF assms, unfolded band_volatility [OF lh ll]]
  have fm: "fmean (map Fin ?vols) =
      (if ?vols = [] then NaN else Fin (sum_list ?vols / real (length ?vols)))"
    by (rule fmean_map_Fin)
  have fin: "?inc \<noteq> NaN" if "0 \<le> Max (set close)"
  proof -
    have "?band \<noteq> []" using ne that by (rule max_row_in_band)
    then have "?vols \<noteq> []" by simp
    then have "fmean (map Fin ?vols) = Fin (sum_list ?vols / real (length ?vols))"
      unfolding fm by simp
    then show ?thesis
      by (simp only: to_double_tenth float_mul_Fin_not_NaN not_False_eq_True)
  qed
  have step: "\<forall>i. i + 1 < 2555 \<longrightarrow> ?path ! (i + 1) = float_add (?path ! i) ?inc"
  proof (intro allI impI)
    fix i :: nat assume "i + 1 < 2555"
    then have "i < 365 * 7 - 1" by simp
    from price_path_step [OF this]
    show "?path ! (i + 1) = float_add (?path ! i) ?inc" by simp
  qed
  have len: "length ?path = 2555" by simp
  have idx: "map (\<lambda>i. last (timestamp d) + int i * ms_per_day) [0..<nat (365 * 7)]
      = map (\<lambda>i. last (timestamp d) + int i * ms_per_day) [0..<2555]"
    by simp
  show ?thesis
    unfolding h using len step fin idx by simp
qed

theorem headline_recurrence_witness:
  "wf_frame \<lparr>timestamp = [0, 86400000],
      columns = [(''high'', [3, 4]), (''low'', [1, 1]), (''close'', [2, 3])]\<rparr>
   \<and> timestamp \<lparr>timestamp = [0, 86400000],
      columns = [(''high'', [3, 4]), (''low'', [1, 1]), (''close'', [2, 3])]\<rparr> \<noteq> []
   \<and> (0::real) \<le> Max (set [2, 3])
   \<and> (\<exists>p. estimate_future_prices \<lparr>timestamp = [0, 86400000],
             columns = [(''high'', [3, 4]), (''low'', [1, 1]), (''close'', [2, 3])]\<rparr> = Inr p
        \<and> length (estimated_future_prices p) = 2555
        \<and> estimated_future_prices p ! 0 = Fin 3
        \<and> ath_average_volatility p = Fin 3
        \<and> increment p = Fin (1351079888211149 / 2 ^ 52)
        \<and> estimated_future_prices p ! 1 = Fin (3715469692580659 / 2 ^ 50)
        \<and> estimated_future_prices p ! 2554
             = float_add (estimated_future_prices p ! 2553) (Fin (1351079888211149 / 2 ^ 52)))"
proof -
  let ?d = "\<lparr>timestamp = [0, 86400000],
      columns = [(''high'', [3, 4]), (''low'', [1, 1]), (''close'', [2, 3::real])]\<rparr>"
  have h1: "wf_frame ?d" by (simp add: wf_frame_def)
  have h2: "timestamp ?d \<noteq> []" by simp
  have h3: "map_of (columns ?d) ''high'' = Some [3, 4]" by simp
  have h4: "map_of (columns ?d) ''low'' = Some [1, 1]" by simp
  have h5: "map_of (columns ?d) ''close'' = Some [2, 3]" by simp
  have h6: "(0::real) \<le> Max (set [2, 3])" by simp
  have m: "Max (set [2, 3::real]) = 3" by simp
  have avg: "fmean (map Fin (map (\<lambda>i. [3, 4::real] ! i - [1, 1] ! i) [1])) = Fin 3"
    by (simp add: fmean_def fsum_def isna_def)
  from headline_recurrence [OF h1 h2 h3 h4 h5, unfolded band_example] obtain p where
    p: "estimate_future_prices ?d = Inr p"
    "length (estimated_future_prices p) = 2555"
    "estimated_future_prices p ! 0 = Fin (Max (set [2, 3]))"
    "ath_average_volatility p = fmean (map Fin (map (\<lambda>i. [3, 4::real] ! i - [1, 1] ! i) [1]))"
    "increment p = float_mul (ath_average_volatility p) (to_double (1 / 10))"
    "\<forall>i. i + 1 < 2555 \<longrightarrow>
            estimated_future_prices p ! (i + 1)
              = float_add (estimated_future_prices p ! i) (increment p)"
    by blast
  have v: "ath_average_volatility p = Fin 3" using p(4) avg by simp
  have i: "increment p = Fin (1351079888211149 / 2 ^ 52)"
    using p(5) increment_example unfolding p(4) by simp
  have z: "estimated_future_prices p ! 0 = Fin 3" using p(3) m by simp
  have "estimated_future_prices p ! (0 + 1)
      = float_add (estimated_future_prices p ! 0) (increment p)"
    using p(6) [rule_format, of 0] by simp
  then have s0: "estimated_future_prices p ! 1 = Fin (3715469692580659 / 2 ^ 50)"
    unfolding z i first_step_example by simp
  have "estimated_future_prices p ! (2553 + 1)
      = float_add (estimated_future_prices p ! 2553) (increment p)"
    using p(6) [rule_format, of 2553] by simp
  then have s1: "estimated_future_prices p ! 2554
      = float_add (estimated_future_prices p ! 2553) (Fin (1351079888211149 / 2 ^ 52))"
    unfolding i by simp
  from h1 h2 h6 p(1,2) z v i s0 s1 show ?thesis by blast
qed

section \<open>Facts about the enriched table\<close>

lemma set_update_subset: "set (AList.update k v al) \<subseteq> insert (k, v) (set al)"
  by (induction al) auto

lemma complete_from_update:
  assumes "complete_from k n cols" "\<forall>i. k \<le> i \<and> i < n \<longrightarrow> \<not> isna (v ! i)"
  shows "complete_from k n (AList.update name v cols)"
proof -
  have "\<forall>i. k \<le> i \<and> i < n \<longrightarrow> \<not> isna (c ! i)"
    if "(nm, c) \<in> set (AList.update name v cols)" for nm c
  proof -
    from that set_update_subset [of name v cols]
    have "(nm, c) = (name, v) \<or> (nm, c) \<in> set cols" by auto
    then show ?thesis using assms by (auto simp: complete_from_def)
  qed
  then show ?thesis unfolding complete_from_def by blast
qed

lemma filter_ge_upt: "filter (\<lambda>i. k \<le> i) [0..<n] = [k..<n]"
  by (induction n) auto

lemma map_nth_from: "map (\<lambda>i. xs ! i) [k..<length xs] = drop k xs"
proof -
  have "drop k (map (\<lambda>i. xs ! i) [0..<length xs]) = map (\<lambda>i. xs ! i) [k..<length xs]"
    by (simp add: drop_map)
  then show ?thesis by (simp add: map_nth)
qed

lemma length_shift [simp]: "length (shift k xs) = length xs"
  by (simp add: shift_def)

lemma length_rolling_std [simp]: "length (rolling_std w xs) = length xs"
  by (simp add: rolling_std_def)

lemma length_relative_strength_idx [simp]: "length (relative_strength_idx close n) = length close"
  by (simp add: relative_strength_idx_def avg_gain_def avg_loss_def)

lemma shift_complete: "k \<le> i \<Longrightarrow> i < length xs \<Longrightarrow> \<not> isna (shift k xs ! i)"
  by (simp add: shift_def isna_def)

lemma shift_incomplete: "i < k \<Longrightarrow> i < length xs \<Longrightarrow> isna (shift k xs ! i)"
  by (simp add: shift_def isna_def)

lemma rolling_std_complete: "w \<le> i + 1 \<Longrightarrow> i < length xs \<Longrightarrow> \<not> isna (rolling_std w xs ! i)"
  by (simp add: rolling_std_def isna_def)

lemma window_map: "window w i (map f xs) = map f (window w i xs)"
  by (simp add: window_def take_map drop_map)

lemma rolling_mean_complete:
  assumes "0 < w" "w \<le> i + 1" "i < length xs"
  shows "\<not> isna (rolling_mean w (map Fin xs) ! i)"
proof -
  have "rolling_mean w (map Fin xs) ! i
      = fdiv (fsum (window w i (map Fin xs))) (Fin (real w))"
    using assms by (simp add: rolling_mean_nth)
  also have "\<dots> = Fin (sum_list (window w i xs) / real w)"
    using assms(1) by (simp add: window_map fsum_map_Fin)
  finally show ?thesis by (simp add: isna_def)
qed

lemma rsi_complete: "i < length close \<Longrightarrow> \<not> isna (relative_strength_idx close n ! i)"
proof -
  assume "i < length close"
  then have "relative_strength_idx close n ! i \<in> set (relative_strength_idx close n)"
    by (intro nth_mem) simp
  with relative_strength_idx_range [of close n]
  obtain r where "relative_strength_idx close n ! i = Fin r" by blast
  then show ?thesis by (simp add: isna_def)
qed


lemma derived_columns_complete:
  assumes "length close = n" "length opn = n" "complete_from 30 n cols0"
  shows "complete_from 30 n
     (add_rolling close (add_lagged close
        (AList.update ''rsi'' (relative_strength_idx close 14)
           (AList.update ''open_ma_7'' (rolling_mean 7 (map Fin opn)) cols0))))"
  unfolding add_rolling_def add_lagged_def
  using assms
  by (simp, intro complete_from_update)
     (simp_all add: shift_complete rolling_std_complete rolling_mean_complete rsi_complete)

lemma lagged_30_present:
  "map_of (add_rolling close (add_lagged close cols)) ''lagged_close_30'' = Some (shift 30 close)"
  by (simp add: add_rolling_def add_lagged_def update_conv')

lemma complete_rows_from_30:
  assumes "complete_from 30 n cols" "map_of cols ''lagged_close_30'' = Some (shift 30 close)"
    and "length close = n"
  shows "complete_rows n cols = [30..<n]"
proof -
  have mem: "(''lagged_close_30'', shift 30 close) \<in> set cols"
    using assms(2) by (rule map_of_SomeD)
  have "filter (\<lambda>i. list_all (\<lambda>(name, c). \<not> isna (c ! i)) cols) [0..<n]
      = filter (\<lambda>i. 30 \<le> i) [0..<n]"
  proof (rule filter_cong [OF refl])
    fix i assume "i \<in> set [0..<n]"
    then have i: "i < n" by simp
    show "list_all (\<lambda>(name, c). \<not> isna (c ! i)) cols = (30 \<le> i)"
    proof
      assume a: "list_all (\<lambda>(name, c). \<not> isna (c ! i)) cols"
      show "30 \<le> i"
      proof (rule ccontr)
        assume "\<not> 30 \<le> i"
        then have "i < 30" by simp
        then have "isna (shift 30 close ! i)"
          using i assms(3) by (intro shift_incomplete) simp_all
        moreover have "\<not> isna (shift 30 close ! i)"
          using a mem by (auto simp: list_all_iff)
        ultimately show False by blast
      qed
    next
      assume "30 \<le> i"
      then show "list_all (\<lambda>(name, c). \<not> isna (c ! i)) cols"
        using assms(1) i by (auto simp: list_all_iff complete_from_def)
    qed
  qed
  then show ?thesis by (simp add: complete_rows_def filter_ge_upt)
qed

lemma prepared_columns_length:
  assumes "wf_frame d" "map_of (columns d) ''high'' = Some high"
    "map_of (columns d) ''low'' = Some low"
    and "(name, c) \<in> set (AList.update ''days_since_halving''
                   (map (\<lambda>x. real_of_int (days_since_last_halving x)) (timestamp d))
                   (AList.update ''volatility'' (map2 (-) high low) (columns d)))"
  shows "length c = length (timestamp d)"
proof -
  let ?dsh = "map (\<lambda>x. real_of_int (days_since_last_halving x)) (timestamp d)"
  let ?vol = "map2 (-) high low"
  from assms(4) set_update_subset [of "''days_since_halving''" ?dsh]
  have "(name, c) = (''days_since_halving'', ?dsh)
      \<or> (name, c) \<in> set (AList.update ''volatility'' ?vol (columns d))"
    by blast
  then have "c = ?dsh \<or> c = ?vol \<or> (name, c) \<in> set (columns d)"
    using set_update_subset [of "''volatility''" ?vol "columns d"] by blast
  moreover have "length ?vol = length (timestamp d)"
    using wf_frame_length [OF assms(1,2)] wf_frame_length [OF assms(1,3)] by simp
  moreover have "length c = length (timestamp d)" if "(name, c) \<in> set (columns d)"
    using that assms(1) by (auto simp: wf_frame_def list_all_iff)
  ultimately show ?thesis by auto
qed

lemma enriched_rows:
  assumes "wf_frame d" "timestamp d \<noteq> []"
    and "map_of (columns d) ''open'' = Some opn" "map_of (columns d) ''high'' = Some high"
    and "map_of (columns d) ''low'' = Some low" "map_of (columns d) ''close'' = Some close"
  shows "\<exists>t. enriched d = Inr t \<and> rows_timestamp t = drop 30 (timestamp d)"
proof -
  let ?n = "length (timestamp d)"
  let ?P = "AList.update ''days_since_halving''
                   (map (\<lambda>x. real_of_int (days_since_last_halving x)) (timestamp d))
                   (AList.update ''volatility'' (map2 (-) high low) (columns d))"
  let ?cols0 = "map (\<lambda>(name, c). (name, map Fin c)) ?P"
  let ?final = "add_rolling close (add_lagged close
        (AList.update ''rsi'' (relative_strength_idx close 14)
           (AList.update ''open_ma_7'' (rolling_mean 7 (map Fin opn)) ?cols0)))"
  have lc: "length close = ?n" using assms(1,6) by (rule wf_frame_length)
  have lo: "length opn = ?n" using assms(1,3) by (rule wf_frame_length)
  have po: "map_of ?P ''open'' = Some opn" using assms(3) by (simp add: update_conv')
  have pc: "map_of ?P ''close'' = Some close" using assms(6) by (simp add: update_conv')
  have "\<exists>p. headline (d\<lparr>columns := ?P\<rparr>) = Inr p"
    using headline_prepared [OF assms(1,2,4,5,6)]
    unfolding estimate_future_prices_def prepare_ok [OF assms(4,5)] by simp
  then obtain p where hp: "headline (d\<lparr>columns := ?P\<rparr>) = Inr p" by blast
  have c0: "complete_from 30 ?n ?cols0"
    unfolding complete_from_def
  proof (intro ballI, clarify)
    fix name c' i
    assume m: "(name, c') \<in> set ?cols0" and i: "30 \<le> i" "i < ?n"
    from m obtain c where c: "(name, c) \<in> set ?P" "c' = map Fin c" by auto
    have "length c = ?n" using assms(1,4,5) c(1) by (rule prepared_columns_length)
    then have "c' ! i = Fin (c ! i)" using c(2) i(2) by simp
    moreover assume "isna (c' ! i)"
    ultimately show False by (simp add: isna_def)
  qed
  have cf: "complete_from 30 ?n ?final" using lc lo c0 by (rule derived_columns_complete)
  have rows: "complete_rows ?n ?final = [30..<?n]"
    using cf lagged_30_present lc by (rule complete_rows_from_30)
  have e: "enriched d = Inr (dropna_rows (timestamp d) ?final)"
    unfolding enriched_def prepare_ok [OF assms(4,5)]
    by (simp add: hp technical_analysis_def col_def po pc Let_def)
  have "rows_timestamp (dropna_rows (timestamp d) ?final) = drop 30 (timestamp d)"
    unfolding dropna_rows_def Let_def rows by (simp add: map_nth_from)
  with e show ?thesis by blast
qed

text \<open>
  Claim C7, as stated, fails: a table of 30 bars is left without a row, where the claim
  promises 30 - 29 = 1 row.
\<close>

theorem enriched_row_count_counterexample:
  "length (timestamp
      \<lparr>timestamp = map (\<lambda>i. int i * 86400000) [0..<30],
       columns = [(''open'', replicate 30 1), (''high'', replicate 30 2),
                  (''low'', replicate 30 1), (''close'', replicate 30 1)]\<rparr>) = 30
   \<and> row_count (enriched
      \<lparr>timestamp = map (\<lambda>i. int i * 86400000) [0..<30],
       columns = [(''open'', replicate 30 1), (''high'', replicate 30 2),
                  (''low'', replicate 30 1), (''close'', replicate 30 1)]\<rparr>) = Inr 0"
proof -
  let ?d = "\<lparr>timestamp = map (\<lambda>i. int i * 86400000) [0..<30],
       columns = [(''open'', replicate 30 1), (''high'', replicate 30 2),
                  (''low'', replicate 30 1), (''close'', replicate 30 (1::real))]\<rparr>"
  have h1: "wf_frame ?d" by (simp add: wf_frame_def)
  have h0: "timestamp ?d \<noteq> []" by simp
  have h2: "map_of (columns ?d) ''open'' = Some (replicate 30 1)" by simp
  have h3: "map_of (columns ?d) ''high'' = Some (replicate 30 2)" by simp
  have h4: "map_of (columns ?d) ''low'' = Some (replicate 30 1)" by simp
  have h5: "map_of (columns ?d) ''close'' = Some (replicate 30 1)" by simp
  from enriched_rows [OF h1 h0 h2 h3 h4 h5] obtain t where
    t: "enriched ?d = Inr t" "rows_timestamp t = drop 30 (timestamp ?d)"
    by blast
  have "row_count (enriched ?d) = Inr 0"
    using t by (simp add: row_count_def)
  then show ?thesis by simp
qed

text \<open>
  Claim C7, amended. For every table of N bars, N at least 1, with open, high, low and
  close columns, the enriched table (all derived columns computed, the rows with a missing
  value dropped) has exactly N - 30 rows, the bars from the 31st on: it is empty for N up
  to 30. The column \<open>lagged_close_30\<close> is missing in the first 30 rows; the windows of
  30 bars are incomplete in the first 29 only.
\<close>

theorem enriched_row_count:
  assumes "wf_frame d" "timestamp d \<noteq> []"
    and "map_of (columns d) ''open'' = Some opn" "map_of (columns d) ''high'' = Some high"
    and "map_of (columns d) ''low'' = Some low" "map_of (columns d) ''close'' = Some close"
  shows "row_count (enriched d) = Inr (length (timestamp d) - 30)
       \<and> (\<exists>t. enriched d = Inr t \<and> rows_timestamp t = drop 30 (timestamp d))"
proof -
  from enriched_rows [OF assms] obtain t where
    t: "enriched d = Inr t" "rows_timestamp t = drop 30 (timestamp d)"
    by blast
  then have "row_count (enriched d) = Inr (length (timestamp d) - 30)"
    by (simp add: row_count_def)
  with t show ?thesis by blast
qed

theorem enriched_row_count_witness:
  "wf_frame
      \<lparr>timestamp = map (\<lambda>i. int i * 86400000) [0..<31],
       columns = [(''open'', replicate 31 1), (''high'', replicate 31 2),
                  (''low'', replicate 31 1), (''close'', replicate 31 1)]\<rparr>
   \<and> row_count (enriched
      \<lparr>timestamp = map (\<lambda>i. int i * 86400000) [0..<31],
       columns = [(''open'', replicate 31 1), (''high'', replicate 31 2),
                  (''low'', replicate 31 1), (''close'', replicate 31 1)]\<rparr>) = Inr 1"
proof -
  let ?d = "\<lparr>timestamp = map (\<lambda>i. int i * 86400000) [0..<31],
       columns = [(''open'', replicate 31 1), (''high'', replicate 31 2),
                  (''low'', replicate 31 1), (''close'', replicate 31 (1::real))]\<rparr>"
  have h1: "wf_frame ?d" by (simp add: wf_frame_def)
  have h0: "timestamp ?d \<noteq> []" by simp
  have h2: "map_of (columns ?d) ''open'' = Some (replicate 31 1)" by simp
  have h3: "map_of (columns ?d) ''high'' = Some (replicate 31 2)" by simp
  have h4: "map_of (columns ?d) ''low'' = Some (replicate 31 1)" by simp
  have h5: "map_of (columns ?d) ''close'' = Some (replicate 31 1)" by simp
  from enriched_row_count [OF h1 h0 h2 h3 h4 h5]
  have "row_count (enriched ?d) = Inr (length (timestamp ?d) - 30)" by blast
  then have "row_count (enriched ?d) = Inr 1" by simp
  with h1 show ?thesis by blast
qed

end
